theory Spec2Isabelle
  imports Main "HOL-Library.Word" "HOL-Library.Monad_Syntax"
begin

section \<open>The command-line parser of consoleapp (cmd::Parser)\<close>

text \<open>
  The development embeds \<^verbatim>\<open>consoleapp/include/cmd/parser.inl\<close> (\<^verbatim>\<open>Parser::parse\<close>,
  \<^verbatim>\<open>parse_long_argument\<close>, \<^verbatim>\<open>parse_short_argument\<close>, \<^verbatim>\<open>parse_command\<close>) and the data
  model of \<^verbatim>\<open>consoleapp/include/cmd_parser.h\<close>.

  A \<^verbatim>\<open>std::string_view\<close> is a \<open>string\<close> (a list of bytes), a \<^verbatim>\<open>char32_t\<close> is a
  \<open>32 word\<close>, an iterator into the argument span is its index (a \<open>nat\<close>), and
  \<^verbatim>\<open>args.end()\<close> is \<open>length args\<close>.
\<close>

subsection \<open>Grammar model (cmd_parser.h)\<close>

type_synonym char32 = "32 word"

record Common =
  longname :: string
  shortname :: "char32 option"
  description :: string

text \<open>
  \<^verbatim>\<open>struct MinMax\<close> has the fields \<^verbatim>\<open>min\<close> and \<^verbatim>\<open>max\<close>; they are suffixed here because
  \<open>min\<close> and \<open>max\<close> are constants of HOL. \<^verbatim>\<open>Flag\<close> inherits \<^verbatim>\<open>Common\<close> and \<^verbatim>\<open>MinMax\<close> and
  adds no field.
\<close>

record Flag = Common +
  min_occ :: "32 word"
  max_occ :: "32 word"

text \<open>
  \<^verbatim>\<open>parse_command\<close> reads \<^verbatim>\<open>argument.required\<close>; the field is added to the fields that
  cmd_parser.h declares.
\<close>

record Argument = Flag +
  metavar :: "string option"
  validator :: "(string \<Rightarrow> bool) option"
  default_value :: "string option"
  required :: bool

record Command = Common +
  arguments :: "(Argument list)"
  flags :: "(Flag list)"

text \<open>The constructors of cmd_parser.h that take a long name and an optional short name.\<close>

definition make_flag :: "string \<Rightarrow> char32 option \<Rightarrow> Flag" where
  "make_flag ln sn =
     \<lparr>longname = ln, shortname = sn, description = [], min_occ = 0, max_occ = - 1\<rparr>"

definition make_argument :: "string \<Rightarrow> char32 option \<Rightarrow> bool \<Rightarrow> Argument" where
  "make_argument ln sn req =
     \<lparr>longname = ln, shortname = sn, description = [], min_occ = 0, max_occ = - 1,
      metavar = None, validator = None, default_value = None, required = req\<rparr>"

definition make_command :: "string \<Rightarrow> char32 option \<Rightarrow> Argument list \<Rightarrow> Flag list \<Rightarrow> Command" where
  "make_command ln sn as fs =
     \<lparr>longname = ln, shortname = sn, description = [], arguments = as, flags = fs\<rparr>"

text \<open>
  \<^verbatim>\<open>class Parser\<close>: the global command is absent, a command by value (\<open>Inl\<close>), or the long
  name of a registered command (\<open>Inr\<close>).
\<close>

record Parser =
  global_command :: "(Command + string) option"
  commands :: "Command list"
  program_name :: string

definition get_global_command :: "Parser \<Rightarrow> Command option" where
  "get_global_command P =
     (case global_command P of
        None \<Rightarrow> None
      | Some (Inl c) \<Rightarrow> Some c
      | Some (Inr n) \<Rightarrow> find (\<lambda>command. n = longname command) (commands P))"

subsection \<open>Result and error model\<close>

text \<open>
  \<^verbatim>\<open>result::Parameter\<close> is \<^verbatim>\<open>std::variant<result::Argument, result::Flag>\<close>: the two
  structs are the two constructors, their fields the selectors.
\<close>

datatype Parameter =
  Argument_param (arg_name: string) (arg_value: string)
| Flag_param (flag_name: string) (occurrence: "32 word")

text \<open>
  The field \<^verbatim>\<open>name\<close> of \<^verbatim>\<open>result::Command\<close> and the fields \<^verbatim>\<open>command\<close> and
  \<^verbatim>\<open>parameters\<close> of \<^verbatim>\<open>result::Result\<close> are prefixed: \<open>name\<close> and \<open>command\<close> are local
  variables of every function below, and \<open>parameters\<close> is a field of
  \<^verbatim>\<open>result::Command\<close> too.
\<close>

record result_Command =
  command_name :: string
  parameters :: "Parameter list"

record Result =
  program :: string
  result_command :: result_Command
  result_parameters :: "Parameter list"

datatype Error_Type = Type_Argument | Type_Flag | Type_Command | Type_None | Type_Unknown

text \<open>
  \<^verbatim>\<open>Error::Code\<close>: the enumerators of cmd_parser.h, and after them the four that
  parser.inl returns and cmd_parser.h does not list.
\<close>

datatype Error_Code =
  MissingArgument | MissingCommand | MissingFlag | NoGlobalCommand | BadCommand
| UnknownName | InvalidValue | OutOfBound | SyntaxError | BadString
| FlagWithValue | MissingValue | UnknownParameter | RequiredArgument

record Error =
  err_argument :: string
  err_value :: "string option"
  err_type :: Error_Type
  err_code :: Error_Code

record PositionnedError =
  error :: Error
  position :: nat

text \<open>
  What a call can end in besides a value: the \<^verbatim>\<open>PositionnedError\<close> that
  \<^verbatim>\<open>make_unexpected\<close> returns, \<^verbatim>\<open>.value()\<close> taken of an expected that holds no value
  (no check precedes it in the source), and \<^verbatim>\<open>args[0]\<close> read on an empty span.
\<close>

datatype failure =
  Unexpected PositionnedError
| Bad_Expected_Access
| Out_Of_Range

definition make_error ::
  "string \<Rightarrow> string option \<Rightarrow> Error_Type \<Rightarrow> Error_Code \<Rightarrow> nat \<Rightarrow> failure" where
  "make_error a v t c p =
     Unexpected \<lparr>error = \<lparr>err_argument = a, err_value = v, err_type = t, err_code = c\<rparr>,
                 position = p\<rparr>"

text \<open>\<^verbatim>\<open>parameter.error().position += n\<close>, which only an expected holding an error reaches.\<close>

fun add_position :: "failure \<Rightarrow> nat \<Rightarrow> failure" where
  "add_position (Unexpected e) n = Unexpected (e\<lparr>position := position e + n\<rparr>)"
| "add_position Bad_Expected_Access n = Bad_Expected_Access"
| "add_position Out_Of_Range n = Out_Of_Range"

subsection \<open>Collaborators that parser.inl calls and the sources do not hold\<close>

text \<open>
  \<^verbatim>\<open>cmd::utils::uni::utf8_char_length\<close> and \<^verbatim>\<open>codepoint\<close> (utils.h), the binder
  \<^verbatim>\<open>add_flag\<close>, \<^verbatim>\<open>add_argument\<close>, \<^verbatim>\<open>add_input\<close> (parser.h) and the iteration order of
  \<^verbatim>\<open>std::unordered_set\<close> are parameters of the embedding. The binder mutates
  \<^verbatim>\<open>result_command\<close> and returns a \<^verbatim>\<open>PosExpected<bool>\<close>: here it returns the updated
  \<^verbatim>\<open>result_command\<close> or the error.
\<close>

record env =
  utf8_char_length :: "string \<Rightarrow> nat option"
  codepoint :: "string \<Rightarrow> char32 option"
  add_flag :: "result_Command \<Rightarrow> Flag \<Rightarrow> string \<Rightarrow> PositionnedError + result_Command"
  add_argument ::
    "result_Command \<Rightarrow> Argument \<Rightarrow> string \<Rightarrow> string \<Rightarrow> PositionnedError + result_Command"
  add_input :: "result_Command \<Rightarrow> Command \<Rightarrow> string \<Rightarrow> PositionnedError + result_Command"
  uset_begin :: "string list \<Rightarrow> string"

definition bound :: "PositionnedError + result_Command \<Rightarrow> failure + result_Command" where
  "bound res = (case res of Inl e \<Rightarrow> Inl (Unexpected e) | Inr rc \<Rightarrow> Inr rc)"

subsection \<open>String views\<close>

definition starts_with :: "string \<Rightarrow> string \<Rightarrow> bool" where
  "starts_with s p = (take (length p) s = p)"

text \<open>
  \<^verbatim>\<open>s.substr(pos, n)\<close> and \<^verbatim>\<open>s.substr(pos)\<close>. Every call of parser.inl has
  \<open>pos \<le> length s\<close> (the token starts with the dashes that are cut off, or the loop
  index is below the size), so the \<^verbatim>\<open>out_of_range\<close> exception has no branch here.
\<close>

definition substr :: "string \<Rightarrow> nat \<Rightarrow> nat \<Rightarrow> string" where
  "substr s pos n = take n (drop pos s)"

definition substr_from :: "string \<Rightarrow> nat \<Rightarrow> string" where
  "substr_from s pos = drop pos s"

text \<open>\<^verbatim>\<open>s.find(c)\<close>: the first index of \<open>c\<close>, \<open>None\<close> for \<^verbatim>\<open>npos\<close>.\<close>

fun find_char :: "string \<Rightarrow> char \<Rightarrow> nat option" where
  "find_char [] c = None"
| "find_char (x # xs) c = (if x = c then Some 0 else map_option Suc (find_char xs c))"

subsection \<open>Parser::parse_long_argument\<close>

text \<open>The split of \<^verbatim>\<open>--name=value\<close> (lines 85 to 94).\<close>

definition long_name :: "string \<Rightarrow> string" where
  "long_name arg =
     (case find_char arg (CHR ''='') of
        None \<Rightarrow> substr_from arg 2
      | Some equal_pos \<Rightarrow> substr arg 2 (equal_pos - 2))"

definition long_value :: "string \<Rightarrow> string option" where
  "long_value arg =
     (case find_char arg (CHR ''='') of
        None \<Rightarrow> None
      | Some equal_pos \<Rightarrow> Some (substr_from arg (equal_pos + 1)))"

definition parse_long_argument ::
  "env \<Rightarrow> string list \<Rightarrow> nat \<Rightarrow> Command \<Rightarrow> result_Command \<Rightarrow> failure + result_Command" where
  "parse_long_argument E args itarg command rc =
     (let arg = args ! itarg;
          name = long_name arg;
          value = long_value arg
      in case find (\<lambda>param. longname param = name) (flags command) of
           Some found_flag \<Rightarrow>
             (if value \<noteq> None
              then Inl (make_error name value Type_Flag FlagWithValue 0)
              else bound (add_flag E rc found_flag name))
         | None \<Rightarrow>
             (case find (\<lambda>param. longname param = name) (arguments command) of
                Some found_argument \<Rightarrow>
                  (case value of
                     None \<Rightarrow> Inl (make_error name value Type_Argument MissingValue 0)
                   | Some v \<Rightarrow> bound (add_argument E rc found_argument name v))
              | None \<Rightarrow> Inl (make_error name value Type_Argument UnknownParameter 0)))"

subsection \<open>Parser::parse_short_argument\<close>

text \<open>
  The loop over the combined flags (lines 157 to 201). \<^verbatim>\<open>iName\<close> advances by the length
  that \<^verbatim>\<open>utf8_char_length\<close> returns, which is a parameter here: a length of 0 would
  keep the loop where it is, so the loop is a partial function and \<open>None\<close> stands
  for a run that does not return. \<^verbatim>\<open>iName\<close> is an \<^verbatim>\<open>int\<close> in the source and a \<open>nat\<close>
  here: the two agree on names shorter than \<open>2 ^ 31\<close> bytes.
\<close>

partial_function (option) multi_flags ::
  "env \<Rightarrow> Command \<Rightarrow> string \<Rightarrow> nat \<Rightarrow> result_Command \<Rightarrow> (failure + result_Command) option" where
  "multi_flags E command name iName rc =
     (if iName < length name then
        (case utf8_char_length E (substr_from name iName) of
           None \<Rightarrow> Some (Inl (make_error name None Type_Flag BadString 0))
         | Some len \<Rightarrow>
             (case codepoint E (substr name iName len) of
                None \<Rightarrow> Some (Inl (make_error name None Type_Flag BadString 0))
              | Some cp \<Rightarrow>
                  (case find (\<lambda>flag. shortname flag = Some cp) (flags command) of
                     None \<Rightarrow> Some (Inl (make_error name None Type_Flag UnknownParameter 0))
                   | Some found_flag \<Rightarrow>
                       (case add_flag E rc found_flag name of
                          Inl e \<Rightarrow> Some (Inl (Unexpected e))
                        | Inr rc' \<Rightarrow> multi_flags E command name (iName + len) rc'))))
      else Some (Inr rc))"

declare multi_flags.simps [code]

text \<open>
  \<^verbatim>\<open>itarg\<close> is passed by reference and the single form advances it to the value
  (line 230): the function returns the iterator with its result. Line 155 takes
  \<^verbatim>\<open>.value()\<close> of the length of the first codepoint without a check.
  The caller has \<open>itarg < length args\<close>.
\<close>

definition parse_short_argument ::
  "env \<Rightarrow> string list \<Rightarrow> nat \<Rightarrow> Command \<Rightarrow> result_Command
     \<Rightarrow> (nat \<times> (failure + result_Command)) option" where
  "parse_short_argument E args itarg command rc =
     (let arg = args ! itarg;
          name = substr_from arg 1
      in case utf8_char_length E name of
           None \<Rightarrow> Some (itarg, Inl Bad_Expected_Access)
         | Some first_len \<Rightarrow>
             (if length name > first_len then
                map_option (Pair itarg) (multi_flags E command name 0 rc)
              else
                (case codepoint E name of
                   None \<Rightarrow> Some (itarg, Inl (make_error name None Type_Flag BadString 0))
                 | Some cp \<Rightarrow>
                     (case find (\<lambda>flag. shortname flag = Some cp) (flags command) of
                        Some found_flag \<Rightarrow> Some (itarg, bound (add_flag E rc found_flag name))
                      | None \<Rightarrow>
                          (case find (\<lambda>argument. shortname argument = Some cp)
                                  (arguments command) of
                             Some found_argument \<Rightarrow>
                               (let itvalue = itarg + 1
                                in if itvalue = length args then
                                     Some (itvalue,
                                           Inl (make_error name None Type_Argument MissingValue 0))
                                   else
                                     Some (itvalue,
                                           bound (add_argument E rc found_argument name
                                                    (args ! itvalue))))
                           | None \<Rightarrow>
                               Some (itarg,
                                     Inl (make_error name None Type_Argument
                                            UnknownParameter 0)))))))"

subsection \<open>Parser::parse_command\<close>

text \<open>
  The routing of one token (lines 285 to 293): the iterator after the call and what
  the call returned.
\<close>

definition dispatch ::
  "env \<Rightarrow> string list \<Rightarrow> nat \<Rightarrow> Command \<Rightarrow> result_Command
     \<Rightarrow> (nat \<times> (failure + result_Command)) option" where
  "dispatch E args itarg command rc =
     (let name = args ! itarg
      in if starts_with name ''--'' then
           Some (itarg, parse_long_argument E args itarg command rc)
         else if starts_with name ''-'' then
           parse_short_argument E args itarg command rc
         else
           Some (itarg, bound (add_input E rc command name)))"

text \<open>
  The loop (lines 269 to 298). The \<^verbatim>\<open>SyntaxError\<close> of line 274 returns at once with
  the distance as its position; every other error has the distance of the iterator,
  as the call left it, added (line 295).
\<close>

partial_function (option) dispatch_loop ::
  "env \<Rightarrow> string list \<Rightarrow> Command \<Rightarrow> nat \<Rightarrow> result_Command \<Rightarrow> (failure + result_Command) option" where
  "dispatch_loop E args command itarg rc =
     (if itarg \<noteq> length args then
        (if starts_with (args ! itarg) ''---'' then
           Some (Inl (make_error (args ! itarg) None Type_None SyntaxError itarg))
         else
           (case dispatch E args itarg command rc of
              None \<Rightarrow> None
            | Some (itarg', Inl f) \<Rightarrow> Some (Inl (add_position f itarg'))
            | Some (itarg', Inr rc') \<Rightarrow> dispatch_loop E args command (itarg' + 1) rc'))
      else Some (Inr rc))"

declare dispatch_loop.simps [code]

text \<open>
  The post validation (lines 300 to 324). The \<^verbatim>\<open>std::unordered_set\<close> is the list of
  its elements, without repetition; which element \<^verbatim>\<open>begin()\<close> points to is left to
  \<open>uset_begin\<close>.
\<close>

definition required_arguments :: "Command \<Rightarrow> string list" where
  "required_arguments command =
     fold (\<lambda>argument S. if required argument then List.insert (longname argument) S else S)
       (arguments command) []"

definition erase_found :: "Parameter list \<Rightarrow> string list \<Rightarrow> string list" where
  "erase_found params S =
     fold (\<lambda>param S.
             case param of
               Argument_param n v \<Rightarrow> (if n \<in> set S then removeAll n S else S)
             | Flag_param n k \<Rightarrow> S)
       params S"

definition post_validation :: "env \<Rightarrow> Command \<Rightarrow> result_Command \<Rightarrow> failure + result_Command" where
  "post_validation E command rc =
     (let remaining = erase_found (parameters rc) (required_arguments command)
      in if remaining \<noteq> [] then
           Inl (make_error (uset_begin E remaining) None Type_Argument RequiredArgument 0)
         else Inr rc)"

definition parse_command ::
  "env \<Rightarrow> string list \<Rightarrow> Command \<Rightarrow> (failure + result_Command) option" where
  "parse_command E args command =
     (case dispatch_loop E args command 0 \<lparr>command_name = longname command, parameters = []\<rparr> of
        None \<Rightarrow> None
      | Some (Inl f) \<Rightarrow> Some (Inl f)
      | Some (Inr rc) \<Rightarrow> Some (post_validation E command rc))"

subsection \<open>Parser::parse\<close>

text \<open>
  The search of lines 37 to 48, for a token whose first codepoint has the length
  \<open>char_len\<close>. Line 40 takes \<^verbatim>\<open>.value()\<close> of the codepoint without a check.
\<close>

definition find_command :: "env \<Rightarrow> Parser \<Rightarrow> string \<Rightarrow> nat \<Rightarrow> failure + Command option" where
  "find_command E P tok char_len =
     (if char_len \<le> length tok then
        (case codepoint E tok of
           None \<Rightarrow> Inl Bad_Expected_Access
         | Some cp \<Rightarrow> Inr (find (\<lambda>command. shortname command = Some cp) (commands P)))
      else Inr (find (\<lambda>command. longname command = tok) (commands P)))"

text \<open>
  Lines 17 to 56: the command that governs (\<open>None\<close> when \<^verbatim>\<open>current_command\<close> has no
  value) and the iterator \<^verbatim>\<open>itarg\<close>. The caller has \<open>args \<noteq> []\<close>.
\<close>

definition resolve_command ::
  "env \<Rightarrow> Parser \<Rightarrow> string list \<Rightarrow> failure + (Command option \<times> nat)" where
  "resolve_command E P args =
     (let itarg = 1
      in if itarg = length args \<or> starts_with (args ! itarg) ''-'' then
           Inr (get_global_command P, itarg)
         else
           (case utf8_char_length E (args ! itarg) of
              None \<Rightarrow> Inl (make_error [] None Type_None BadString itarg)
            | Some char_len \<Rightarrow>
                (case find_command E P (args ! itarg) char_len of
                   Inl f \<Rightarrow> Inl f
                 | Inr (Some found_cmd) \<Rightarrow> Inr (Some found_cmd, itarg + 1)
                 | Inr None \<Rightarrow> Inr (get_global_command P, itarg))))"

definition parse :: "env \<Rightarrow> Parser \<Rightarrow> string list \<Rightarrow> (failure + Result) option" where
  "parse E P args =
     (if args = [] then Some (Inl Out_Of_Range)
      else
        (case resolve_command E P args of
           Inl f \<Rightarrow> Some (Inl f)
         | Inr (None, itarg) \<Rightarrow>
             Some (Inl (make_error [] None Type_Command NoGlobalCommand itarg))
         | Inr (Some current_command, itarg) \<Rightarrow>
             (case parse_command E (drop itarg args) current_command of
                None \<Rightarrow> None
              | Some (Inl f) \<Rightarrow> Some (Inl (add_position f itarg))
              | Some (Inr parsed_cmd) \<Rightarrow>
                  Some (Inr \<lparr>program = args ! 0, result_command = parsed_cmd,
                             result_parameters = []\<rparr>))))"

subsection \<open>An instance of the collaborators\<close>

text \<open>
  Modelled from the spec: \<^verbatim>\<open>cmd::utils::uni::utf8_char_length\<close> (utils.h is not among
  the sources). The spec: it decodes the byte length of the first character of a
  string slice and fails on malformed input at the start of the slice. The length is
  read off the lead byte, as UTF-8 defines it.
\<close>

definition utf8_char_length_spec :: "string \<Rightarrow> nat option" where
  "utf8_char_length_spec s =
     (case s of
        [] \<Rightarrow> None
      | c # cs \<Rightarrow>
          (let b = (of_char c :: nat)
           in if b < 0x80 then Some 1
              else if b < 0xC0 then None
              else if b < 0xE0 then Some 2
              else if b < 0xF0 then Some 3
              else if b < 0xF8 then Some 4
              else None))"

fun continuation :: "nat \<Rightarrow> string \<Rightarrow> nat option" where
  "continuation acc [] = Some acc"
| "continuation acc (c # cs) =
     (let b = (of_char c :: nat)
      in if 0x80 \<le> b \<and> b < 0xC0 then continuation (acc * 64 + (b - 0x80)) cs else None)"

text \<open>
  Modelled from the spec: \<^verbatim>\<open>cmd::utils::uni::codepoint\<close> (utils.h is not among the
  sources). The spec: it decodes the codepoint value of the first character of a
  string slice and fails on malformed input at the start of the slice.
\<close>

definition codepoint_spec :: "string \<Rightarrow> char32 option" where
  "codepoint_spec s =
     (case utf8_char_length_spec s of
        None \<Rightarrow> None
      | Some n \<Rightarrow>
          (if length s < n then None
           else
             (let b = (of_char (hd s) :: nat);
                  lead = (if n = 1 then b else if n = 2 then b - 0xC0
                          else if n = 3 then b - 0xE0 else b - 0xF0)
              in map_option of_nat (continuation lead (take (n - 1) (tl s))))))"

text \<open>
  Modelled from the spec: \<^verbatim>\<open>Parser::add_flag\<close> (parser.h is not among the sources).
  The spec: a repeated flag increments the occurrence counter associated with its
  long name rather than appending a duplicate entry; the bounds are not enforced.
\<close>

fun count_flag :: "string \<Rightarrow> Parameter list \<Rightarrow> Parameter list" where
  "count_flag n [] = [Flag_param n 1]"
| "count_flag n (Flag_param m k # ps) =
     (if m = n then Flag_param m (k + 1) # ps else Flag_param m k # count_flag n ps)"
| "count_flag n (Argument_param m v # ps) = Argument_param m v # count_flag n ps"

definition add_flag_spec ::
  "result_Command \<Rightarrow> Flag \<Rightarrow> string \<Rightarrow> PositionnedError + result_Command" where
  "add_flag_spec rc flag name =
     Inr (rc\<lparr>parameters := count_flag (longname flag) (parameters rc)\<rparr>)"

text \<open>
  Modelled from the spec: \<^verbatim>\<open>Parser::add_argument\<close> (parser.h is not among the
  sources). The spec: each occurrence appends a new name and value pair, all
  occurrences retained in order; the bound parameter belongs to the argument
  registered on the command, and a short form satisfies the requirement on the
  long name, so the pair is bound under the long name of the argument.
\<close>

definition add_argument_spec ::
  "result_Command \<Rightarrow> Argument \<Rightarrow> string \<Rightarrow> string \<Rightarrow> PositionnedError + result_Command" where
  "add_argument_spec rc argument name v =
     Inr (rc\<lparr>parameters := parameters rc @ [Argument_param (longname argument) v]\<rparr>)"

text \<open>
  Modelled from the spec: \<^verbatim>\<open>Parser::add_input\<close> (parser.h is not among the sources).
  The spec: a positional input is bound through the argument binder as opaque
  positional data, not matched against the named arguments. The spec does not name
  the slot; the pair is bound under the empty name here.
\<close>

definition add_input_spec ::
  "result_Command \<Rightarrow> Command \<Rightarrow> string \<Rightarrow> PositionnedError + result_Command" where
  "add_input_spec rc command name =
     Inr (rc\<lparr>parameters := parameters rc @ [Argument_param [] name]\<rparr>)"

text \<open>
  The iteration order of \<^verbatim>\<open>std::unordered_set\<close> is not specified and differs between
  standard libraries; this instance takes the element inserted last, which is one
  choice among them and not the order of a particular library. It is used below only
  where a single required name is left.
\<close>

definition spec_env :: env where
  "spec_env =
     \<lparr>utf8_char_length = utf8_char_length_spec, codepoint = codepoint_spec,
      add_flag = add_flag_spec, add_argument = add_argument_spec,
      add_input = add_input_spec, uset_begin = hd\<rparr>"

subsection \<open>Reading a combined token codepoint by codepoint\<close>

text \<open>
  These definitions follow the words of the spec, to be compared with the loop of
  \<^verbatim>\<open>parse_short_argument\<close>. \<open>decodes E name i cps\<close>: from byte \<open>i\<close> on, \<open>name\<close> is the
  codepoints \<open>cps\<close> one after the other, each decoded by the codepoint utility.
\<close>

fun decodes :: "env \<Rightarrow> string \<Rightarrow> nat \<Rightarrow> char32 list \<Rightarrow> bool" where
  "decodes E name i [] = (length name \<le> i)"
| "decodes E name i (cp # cps) =
     (i < length name \<and>
      (case utf8_char_length E (substr_from name i) of
         None \<Rightarrow> False
       | Some len \<Rightarrow>
           codepoint E (substr name i len) = Some cp \<and> decodes E name (i + len) cps))"

text \<open>A codepoint resolved as the short name of a flag of the command.\<close>

definition resolve_flag :: "Command \<Rightarrow> char32 \<Rightarrow> Flag option" where
  "resolve_flag command cp = find (\<lambda>flag. shortname flag = Some cp) (flags command)"

text \<open>A codepoint resolved as the short name of an argument of the command.\<close>

definition resolve_argument :: "Command \<Rightarrow> char32 \<Rightarrow> Argument option" where
  "resolve_argument command cp =
     find (\<lambda>argument. shortname argument = Some cp) (arguments command)"

text \<open>The flags bound one after the other, left to right, until the binder refuses one.\<close>

fun bind_flags ::
  "env \<Rightarrow> string \<Rightarrow> Flag list \<Rightarrow> result_Command \<Rightarrow> PositionnedError + result_Command" where
  "bind_flags E name [] rc = Inr rc"
| "bind_flags E name (f # fs) rc =
     (case add_flag E rc f name of
        Inl e \<Rightarrow> Inl e
      | Inr rc' \<Rightarrow> bind_flags E name fs rc')"

text \<open>
  The codepoints resolved and bound in order, the first one that is no flag failing
  with \<^verbatim>\<open>UnknownParameter\<close> for the whole name.
\<close>

fun bind_codepoints ::
  "env \<Rightarrow> Command \<Rightarrow> string \<Rightarrow> char32 list \<Rightarrow> result_Command \<Rightarrow> failure + result_Command" where
  "bind_codepoints E command name [] rc = Inr rc"
| "bind_codepoints E command name (cp # cps) rc =
     (case resolve_flag command cp of
        None \<Rightarrow> Inl (make_error name None Type_Flag UnknownParameter 0)
      | Some f \<Rightarrow>
          (case add_flag E rc f name of
             Inl e \<Rightarrow> Inl (Unexpected e)
           | Inr rc' \<Rightarrow> bind_codepoints E command name cps rc'))"

subsection \<open>What the binder may return\<close>

text \<open>\<open>binder_errors E Q\<close>: every error that the binder of \<open>E\<close> returns satisfies \<open>Q\<close>.\<close>

definition binder_errors :: "env \<Rightarrow> (PositionnedError \<Rightarrow> bool) \<Rightarrow> bool" where
  "binder_errors E Q =
     ((\<forall>rc f n e. add_flag E rc f n = Inl e \<longrightarrow> Q e) \<and>
      (\<forall>rc a n v e. add_argument E rc a n v = Inl e \<longrightarrow> Q e) \<and>
      (\<forall>rc c n e. add_input E rc c n = Inl e \<longrightarrow> Q e))"

text \<open>\<open>returned_by_binder E e\<close>: some call of the binder of \<open>E\<close> returns the error \<open>e\<close>.\<close>

definition returned_by_binder :: "env \<Rightarrow> PositionnedError \<Rightarrow> bool" where
  "returned_by_binder E e = (\<not> binder_errors E (\<lambda>e'. e' \<noteq> e))"

text \<open>
  \<open>slice_error E n f\<close>: what the parsing of a slice of \<open>n\<close> tokens can fail with. It is
  the unchecked \<^verbatim>\<open>.value()\<close>, or an error that parser.inl makes there, which is not
  of the type \<^verbatim>\<open>Command\<close> and sits at a position up to \<open>n\<close>, or an error of the
  binder with an iterator offset up to \<open>n\<close> added to its position.
\<close>

definition slice_error :: "env \<Rightarrow> nat \<Rightarrow> failure \<Rightarrow> bool" where
  "slice_error E n f =
     (f = Bad_Expected_Access \<or>
      (\<exists>a v t c p. t \<noteq> Type_Command \<and> p \<le> n \<and> f = make_error a v t c p) \<or>
      (\<exists>e p. p \<le> n \<and> returned_by_binder E e \<and>
             f = Unexpected (e\<lparr>position := position e + p\<rparr>)))"

text \<open>The names under which the \<^verbatim>\<open>Argument\<close> parameters of a result are bound.\<close>

definition bound_arguments :: "result_Command \<Rightarrow> string set" where
  "bound_arguments rc = {n. \<exists>v. Argument_param n v \<in> set (parameters rc)}"

text \<open>
  Modelled from the spec: what \<^verbatim>\<open>add_flag\<close>, \<^verbatim>\<open>add_argument\<close> and \<^verbatim>\<open>add_input\<close>
  (parser.h is not among the sources) do to the \<^verbatim>\<open>Argument\<close> parameters bound so far.
  The spec: the binder appends to the parameters of the result, every occurrence of
  an argument is retained, and an argument supplied in its short form satisfies the
  requirement on its long name. So no call unbinds a name, and \<^verbatim>\<open>add_argument\<close>
  binds the long name of the argument it is given.
\<close>

definition binds_by_longname :: "env \<Rightarrow> bool" where
  "binds_by_longname E =
     ((\<forall>rc f n rc'. add_flag E rc f n = Inr rc' \<longrightarrow>
          bound_arguments rc \<subseteq> bound_arguments rc') \<and>
      (\<forall>rc a n v rc'. add_argument E rc a n v = Inr rc' \<longrightarrow>
          insert (longname a) (bound_arguments rc) \<subseteq> bound_arguments rc') \<and>
      (\<forall>rc c n rc'. add_input E rc c n = Inr rc' \<longrightarrow>
          bound_arguments rc \<subseteq> bound_arguments rc'))"

subsection \<open>A grammar to run the parser on\<close>

definition flag_all :: Flag where
  "flag_all = make_flag ''all'' (Some 0x61)"

definition flag_bare :: Flag where
  "flag_bare = make_flag ''bare'' (Some 0x62)"

definition flag_color :: Flag where
  "flag_color = make_flag ''color'' (Some 0x63)"

definition argument_name :: Argument where
  "argument_name = make_argument ''name'' (Some 0x6E) True"

definition argument_output :: Argument where
  "argument_output = make_argument ''output'' (Some 0x6F) False"

definition global :: Command where
  "global = make_command ''global'' None [argument_name, argument_output]
              [flag_all, flag_bare, flag_color]"

definition build :: Command where
  "build = make_command ''build'' None [] [flag_all]"

definition clean :: Command where
  "clean = make_command ''clean'' (Some 0x63) [] [flag_all]"

definition example_parser :: Parser where
  "example_parser =
     \<lparr>global_command = Some (Inl global), commands = [build, clean], program_name = []\<rparr>"

definition no_global_parser :: Parser where
  "no_global_parser = \<lparr>global_command = None, commands = [build], program_name = []\<rparr>"

section \<open>Properties\<close>

lemmas grammar_defs =
  global_def build_def clean_def make_command_def make_flag_def make_argument_def
  flag_all_def flag_bare_def flag_color_def argument_name_def argument_output_def

lemmas spec_env_defs =
  spec_env_def add_flag_spec_def add_argument_spec_def add_input_spec_def bound_def


subsection \<open>The empty argument vector\<close>

lemma bound_not_range: "bound r \<noteq> Inl Out_Of_Range"
  by (cases r) (simp_all add: bound_def)

lemma add_position_range: "add_position f n = Out_Of_Range \<longleftrightarrow> f = Out_Of_Range"
  by (cases f) simp_all

lemma multi_flags_not_range:
  assumes "multi_flags E command name iName rc = Some r"
  shows "r \<noteq> Inl Out_Of_Range"
  by (rule multi_flags.raw_induct
             [where P = "\<lambda>E command name iName rc r. r \<noteq> Inl Out_Of_Range", OF _ assms])
     (auto simp: make_error_def split: if_splits option.splits sum.splits)

lemma parse_long_argument_not_range:
  "parse_long_argument E args itarg command rc \<noteq> Inl Out_Of_Range"
  by (simp add: parse_long_argument_def Let_def make_error_def bound_not_range
           split: option.splits)

lemma parse_short_argument_not_range:
  assumes "parse_short_argument E args itarg command rc = Some (i, r)"
  shows "r \<noteq> Inl Out_Of_Range"
  using assms
  by (auto simp: parse_short_argument_def Let_def make_error_def bound_not_range
           dest: multi_flags_not_range split: option.splits if_splits)

lemma dispatch_not_range:
  assumes "dispatch E args itarg command rc = Some (i, r)"
  shows "r \<noteq> Inl Out_Of_Range"
  using assms
  by (auto simp: dispatch_def Let_def bound_not_range parse_long_argument_not_range
           dest: parse_short_argument_not_range split: if_splits)

lemma dispatch_loop_not_range:
  assumes "dispatch_loop E args command itarg rc = Some r"
  shows "r \<noteq> Inl Out_Of_Range"
  by (rule dispatch_loop.raw_induct
             [where P = "\<lambda>E args command itarg rc r. r \<noteq> Inl Out_Of_Range", OF _ assms])
     (auto simp: make_error_def add_position_range dest: dispatch_not_range
           split: if_splits option.splits sum.splits prod.splits)

lemma parse_command_not_range:
  assumes "parse_command E args command = Some r"
  shows "r \<noteq> Inl Out_Of_Range"
  using assms
  by (auto simp: parse_command_def post_validation_def Let_def make_error_def
           dest: dispatch_loop_not_range split: option.splits sum.splits if_splits)

lemma resolve_command_not_range: "resolve_command E P args \<noteq> Inl Out_Of_Range"
  by (auto simp: resolve_command_def find_command_def Let_def make_error_def
           split: option.splits sum.splits if_splits)

text \<open>
  C10. \<^verbatim>\<open>parse\<close> reads \<^verbatim>\<open>args[0]\<close> before it looks at the length of the vector: on the
  empty vector, whatever the grammar and the collaborators, the read is out of range,
  and the read is out of range on the empty vector only. Every other statement about
  \<^verbatim>\<open>parse\<close> is about a vector that is not empty.
\<close>

theorem parse_out_of_range_iff:
  "parse E P args = Some (Inl Out_Of_Range) \<longleftrightarrow> args = []"
proof
  assume "parse E P args = Some (Inl Out_Of_Range)"
  then show "args = []"
    by (auto simp: parse_def make_error_def add_position_range resolve_command_not_range
             dest: parse_command_not_range
             split: if_splits sum.splits option.splits prod.splits)
next
  assume "args = []"
  then show "parse E P args = Some (Inl Out_Of_Range)"
    by (simp add: parse_def)
qed

subsection \<open>The program field\<close>

text \<open>
  C9. Whenever \<^verbatim>\<open>parse\<close> succeeds, the vector is not empty and the \<^verbatim>\<open>program\<close> field
  of the result is \<^verbatim>\<open>args[0]\<close>.
\<close>

theorem parse_program:
  assumes "parse E P args = Some (Inr r)"
  shows "args \<noteq> [] \<and> program r = args ! 0"
  using assms
  by (auto simp: parse_def split: if_splits sum.splits option.splits prod.splits)

theorem parse_program_witness:
  "parse spec_env example_parser [''prog'', ''-ab'', ''--name=x''] =
     Some (Inr \<lparr>program = ''prog'',
                result_command =
                  \<lparr>command_name = ''global'',
                   parameters = [Flag_param ''all'' 1, Flag_param ''bare'' 1,
                                 Argument_param ''name'' ''x'']\<rparr>,
                result_parameters = []\<rparr>) \<and>
   program \<lparr>program = ''prog'',
            result_command =
              \<lparr>command_name = ''global'',
               parameters = [Flag_param ''all'' 1, Flag_param ''bare'' 1,
                             Argument_param ''name'' ''x'']\<rparr>,
            result_parameters = []\<rparr> = [''prog'', ''-ab'', ''--name=x''] ! 0"
proof -
  have h: "parse spec_env example_parser [''prog'', ''-ab'', ''--name=x''] =
     Some (Inr \<lparr>program = ''prog'',
                result_command =
                  \<lparr>command_name = ''global'',
                   parameters = [Flag_param ''all'' 1, Flag_param ''bare'' 1,
                                 Argument_param ''name'' ''x'']\<rparr>,
                result_parameters = []\<rparr>)"
    by code_simp
  from parse_program [OF h] h show ?thesis by simp
qed

subsection \<open>Long options\<close>

lemma find_char_absent: "c \<notin> set s \<Longrightarrow> find_char s c = None"
  by (induction s) auto

lemma find_char_first: "c \<notin> set n \<Longrightarrow> find_char (n @ c # v) c = Some (length n)"
  by (induction n) auto

lemma long_split_flag:
  assumes "CHR ''='' \<notin> set n"
  shows "long_name (''--'' @ n) = n \<and> long_value (''--'' @ n) = None"
  using assms
  by (simp add: long_name_def long_value_def substr_from_def find_char_absent)

lemma long_split_argument:
  assumes "CHR ''='' \<notin> set n"
  shows "long_name (''--'' @ n @ CHR ''='' # v) = n \<and>
         long_value (''--'' @ n @ CHR ''='' # v) = Some v"
  using assms
  by (simp add: long_name_def long_value_def substr_from_def substr_def find_char_first)

lemma long_split:
  assumes "CHR ''='' \<notin> set n"
  shows "long_name (''--'' @ n @ (case val of None \<Rightarrow> [] | Some v \<Rightarrow> CHR ''='' # v)) = n \<and>
         long_value (''--'' @ n @ (case val of None \<Rightarrow> [] | Some v \<Rightarrow> CHR ''='' # v)) = val"
  using long_split_flag [OF assms] long_split_argument [OF assms]
  by (cases val) simp_all

text \<open>
  C2. A long-option token is \<^verbatim>\<open>--\<close>, a name without \<^verbatim>\<open>=\<close> and, when a value is
  supplied, \<^verbatim>\<open>=\<close> and the value. The flags are searched first, then the arguments,
  both for a long name equal to the name: a flag with a value fails \<^verbatim>\<open>FlagWithValue\<close>;
  a flag without a value is handed to the flag binder; an argument without a value
  fails \<^verbatim>\<open>MissingValue\<close>; an argument with a value is handed to the argument binder
  with the name and the value; a name that is neither fails \<^verbatim>\<open>UnknownParameter\<close>.
\<close>

theorem parse_long_argument_outcomes:
  assumes "args ! itarg = ''--'' @ n @ (case val of None \<Rightarrow> [] | Some v \<Rightarrow> CHR ''='' # v)"
      and "CHR ''='' \<notin> set n"
  shows "(find (\<lambda>param. longname param = n) (flags command) = Some found_flag \<and> val = Some v \<longrightarrow>
            parse_long_argument E args itarg command rc =
              Inl (make_error n (Some v) Type_Flag FlagWithValue 0)) \<and>
         (find (\<lambda>param. longname param = n) (flags command) = Some found_flag \<and> val = None \<longrightarrow>
            parse_long_argument E args itarg command rc =
              bound (add_flag E rc found_flag n)) \<and>
         (find (\<lambda>param. longname param = n) (flags command) = None \<and>
          find (\<lambda>param. longname param = n) (arguments command) = Some found_argument \<and>
          val = None \<longrightarrow>
            parse_long_argument E args itarg command rc =
              Inl (make_error n None Type_Argument MissingValue 0)) \<and>
         (find (\<lambda>param. longname param = n) (flags command) = None \<and>
          find (\<lambda>param. longname param = n) (arguments command) = Some found_argument \<and>
          val = Some v \<longrightarrow>
            parse_long_argument E args itarg command rc =
              bound (add_argument E rc found_argument n v)) \<and>
         (find (\<lambda>param. longname param = n) (flags command) = None \<and>
          find (\<lambda>param. longname param = n) (arguments command) = None \<longrightarrow>
            parse_long_argument E args itarg command rc =
              Inl (make_error n val Type_Argument UnknownParameter 0))"
proof -
  have split: "long_name (args ! itarg) = n" "long_value (args ! itarg) = val"
    using long_split [OF assms(2), of val] assms(1) by simp_all
  show ?thesis
    by (simp add: parse_long_argument_def Let_def split)
qed

theorem parse_long_argument_outcomes_witness:
  "parse_long_argument spec_env [''--all=x''] 0 global \<lparr>command_name = ''global'', parameters = []\<rparr> =
     Inl (make_error ''all'' (Some ''x'') Type_Flag FlagWithValue 0) \<and>
   parse_long_argument spec_env [''--all''] 0 global \<lparr>command_name = ''global'', parameters = []\<rparr> =
     Inr \<lparr>command_name = ''global'', parameters = [Flag_param ''all'' 1]\<rparr> \<and>
   parse_long_argument spec_env [''--name''] 0 global \<lparr>command_name = ''global'', parameters = []\<rparr> =
     Inl (make_error ''name'' None Type_Argument MissingValue 0) \<and>
   parse_long_argument spec_env [''--name=v''] 0 global \<lparr>command_name = ''global'', parameters = []\<rparr> =
     Inr \<lparr>command_name = ''global'', parameters = [Argument_param ''name'' ''v'']\<rparr> \<and>
   parse_long_argument spec_env [''--zzz=1''] 0 global \<lparr>command_name = ''global'', parameters = []\<rparr> =
     Inl (make_error ''zzz'' (Some ''1'') Type_Argument UnknownParameter 0)"
proof -
  let ?rc = "\<lparr>command_name = ''global'', parameters = []\<rparr>"
  have 1: "parse_long_argument spec_env [''--all=x''] 0 global ?rc =
             Inl (make_error ''all'' (Some ''x'') Type_Flag FlagWithValue 0)"
    using parse_long_argument_outcomes
            [where args = "[''--all=x'']" and itarg = 0 and n = "''all''" and val = "Some ''x''"
               and command = global and found_flag = flag_all and v = "''x''"
               and E = spec_env and rc = ?rc]
    by (simp add: grammar_defs)
  have 2: "parse_long_argument spec_env [''--all''] 0 global ?rc =
             Inr \<lparr>command_name = ''global'', parameters = [Flag_param ''all'' 1]\<rparr>"
    using parse_long_argument_outcomes
            [where args = "[''--all'']" and itarg = 0 and n = "''all''" and val = None
               and command = global and found_flag = flag_all
               and E = spec_env and rc = ?rc]
    by (simp add: grammar_defs spec_env_defs)
  have 3: "parse_long_argument spec_env [''--name''] 0 global ?rc =
             Inl (make_error ''name'' None Type_Argument MissingValue 0)"
    using parse_long_argument_outcomes
            [where args = "[''--name'']" and itarg = 0 and n = "''name''" and val = None
               and command = global and found_argument = argument_name
               and E = spec_env and rc = ?rc]
    by (simp add: grammar_defs)
  have 4: "parse_long_argument spec_env [''--name=v''] 0 global ?rc =
             Inr \<lparr>command_name = ''global'', parameters = [Argument_param ''name'' ''v'']\<rparr>"
    using parse_long_argument_outcomes
            [where args = "[''--name=v'']" and itarg = 0 and n = "''name''" and val = "Some ''v''"
               and command = global and found_argument = argument_name and v = "''v''"
               and E = spec_env and rc = ?rc]
    by (simp add: grammar_defs spec_env_defs)
  have 5: "parse_long_argument spec_env [''--zzz=1''] 0 global ?rc =
             Inl (make_error ''zzz'' (Some ''1'') Type_Argument UnknownParameter 0)"
    using parse_long_argument_outcomes
            [where args = "[''--zzz=1'']" and itarg = 0 and n = "''zzz''" and val = "Some ''1''"
               and command = global and E = spec_env and rc = ?rc]
    by (simp add: grammar_defs)
  from 1 2 3 4 5 show ?thesis by blast
qed

subsection \<open>Short options, single form\<close>

lemma starts_with_dash: "starts_with (CHR ''-'' # nm) ''-''"
  by (simp add: starts_with_def)

lemma starts_with_dashes:
  "starts_with (CHR ''-'' # nm) ''--'' \<longleftrightarrow> starts_with nm ''-''"
  "starts_with (CHR ''-'' # nm) ''---'' \<longleftrightarrow> starts_with nm ''--''"
  by (cases nm; simp add: starts_with_def)+

lemma starts_with_longer: "starts_with nm ''--'' \<Longrightarrow> starts_with nm ''-''"
  by (cases nm) (simp_all add: starts_with_def)

lemma dispatch_short:
  assumes "args ! itarg = CHR ''-'' # nm" "\<not> starts_with nm ''-''"
  shows "dispatch E args itarg command rc = parse_short_argument E args itarg command rc"
  using assms by (simp add: dispatch_def Let_def starts_with_dashes starts_with_dash)

lemma dispatch_loop_short:
  assumes "itarg < length args" "args ! itarg = CHR ''-'' # nm" "\<not> starts_with nm ''-''"
  shows "dispatch_loop E args command itarg rc =
           (case parse_short_argument E args itarg command rc of
              None \<Rightarrow> None
            | Some (itarg', Inl f) \<Rightarrow> Some (Inl (add_position f itarg'))
            | Some (itarg', Inr rc') \<Rightarrow> dispatch_loop E args command (itarg' + 1) rc')"
proof -
  have "\<not> starts_with nm ''--''" using assms(3) starts_with_longer by blast
  then show ?thesis
    using assms
    by (subst dispatch_loop.simps) (simp add: dispatch_short starts_with_dashes)
qed

lemma utf8_n: "utf8_char_length_spec ''n'' = Some 1" "codepoint_spec ''n'' = Some 0x6E"
  by code_simp+

lemma utf8_z: "utf8_char_length_spec ''z'' = Some 1" "codepoint_spec ''z'' = Some 0x7A"
  by code_simp+

text \<open>
  C7. A short-option token whose name is one codepoint that is no flag short name:
  when the codepoint is the short name of an argument, the next token of the stream
  is the value handed to the argument binder and the loop goes on after the value;
  when there is no next token the parse fails \<^verbatim>\<open>MissingValue\<close>; when the codepoint is
  no argument short name either it fails \<^verbatim>\<open>UnknownParameter\<close>.
\<close>

theorem short_argument_value:
  assumes "itarg < length args" "args ! itarg = CHR ''-'' # nm" "\<not> starts_with nm ''-''"
      and "utf8_char_length E nm = Some len" "length nm \<le> len"
      and "codepoint E nm = Some cp" "resolve_flag command cp = None"
  shows "(resolve_argument command cp = Some found_argument \<and> itarg + 1 < length args \<longrightarrow>
            dispatch_loop E args command itarg rc =
              (case add_argument E rc found_argument nm (args ! (itarg + 1)) of
                 Inl e \<Rightarrow> Some (Inl (Unexpected (e\<lparr>position := position e + (itarg + 1)\<rparr>)))
               | Inr rc' \<Rightarrow> dispatch_loop E args command (itarg + 2) rc')) \<and>
         (resolve_argument command cp = Some found_argument \<and> itarg + 1 = length args \<longrightarrow>
            dispatch_loop E args command itarg rc =
              Some (Inl (make_error nm None Type_Argument MissingValue (itarg + 1)))) \<and>
         (resolve_argument command cp = None \<longrightarrow>
            dispatch_loop E args command itarg rc =
              Some (Inl (make_error nm None Type_Argument UnknownParameter itarg)))"
  using assms(2,4-7)
  by (simp add: dispatch_loop_short [OF assms(1-3)] parse_short_argument_def Let_def
        substr_from_def resolve_flag_def resolve_argument_def bound_def make_error_def
        split: sum.splits)

theorem short_argument_value_witness:
  "dispatch_loop spec_env [''-n'', ''-x''] global 0 \<lparr>command_name = ''global'', parameters = []\<rparr> =
     Some (Inr \<lparr>command_name = ''global'', parameters = [Argument_param ''name'' ''-x'']\<rparr>) \<and>
   dispatch_loop spec_env [''-n''] global 0 \<lparr>command_name = ''global'', parameters = []\<rparr> =
     Some (Inl (make_error ''n'' None Type_Argument MissingValue 1)) \<and>
   dispatch_loop spec_env [''-z''] global 0 \<lparr>command_name = ''global'', parameters = []\<rparr> =
     Some (Inl (make_error ''z'' None Type_Argument UnknownParameter 0))"
proof -
  let ?rc = "\<lparr>command_name = ''global'', parameters = []\<rparr>"
  have stop: "dispatch_loop E [a, b] c (Suc (Suc 0)) rc = Some (Inr rc)" for E a b c rc
    by (subst dispatch_loop.simps) simp
  have 1: "dispatch_loop spec_env [''-n'', ''-x''] global 0 ?rc =
             Some (Inr \<lparr>command_name = ''global'', parameters = [Argument_param ''name'' ''-x'']\<rparr>)"
    using short_argument_value
            [where args = "[''-n'', ''-x'']" and itarg = 0 and nm = "''n''" and E = spec_env
               and len = 1 and cp = "0x6E" and command = global
               and found_argument = argument_name and rc = ?rc]
    by (simp add: grammar_defs spec_env_defs utf8_n starts_with_def resolve_flag_def
          resolve_argument_def stop)
  have 2: "dispatch_loop spec_env [''-n''] global 0 ?rc =
             Some (Inl (make_error ''n'' None Type_Argument MissingValue 1))"
    using short_argument_value
            [where args = "[''-n'']" and itarg = 0 and nm = "''n''" and E = spec_env
               and len = 1 and cp = "0x6E" and command = global
               and found_argument = argument_name and rc = ?rc]
    by (simp add: grammar_defs spec_env_defs utf8_n starts_with_def resolve_flag_def
          resolve_argument_def)
  have 3: "dispatch_loop spec_env [''-z''] global 0 ?rc =
             Some (Inl (make_error ''z'' None Type_Argument UnknownParameter 0))"
    using short_argument_value
            [where args = "[''-z'']" and itarg = 0 and nm = "''z''" and E = spec_env
               and len = 1 and cp = "0x7A" and command = global and rc = ?rc]
    by (simp add: grammar_defs spec_env_defs utf8_z starts_with_def resolve_flag_def
          resolve_argument_def)
  from 1 2 3 show ?thesis by blast
qed

subsection \<open>Short options, malformed name\<close>

text \<open>
  C8. The name made of the byte 0xFF is malformed at its first decode point. Line 155 takes
  \<^verbatim>\<open>.value()\<close> of its length without a check: the call ends in the access of an
  expected that holds no value, not in a \<^verbatim>\<open>BadString\<close> error.
\<close>

theorem short_option_unchecked_length:
  "utf8_char_length_spec [CHR 0xFF] = None \<and>
   parse_short_argument spec_env [[CHR ''-'', CHR 0xFF]] 0 global
     \<lparr>command_name = ''global'', parameters = []\<rparr> = Some (0, Inl Bad_Expected_Access) \<and>
   parse spec_env example_parser [''prog'', [CHR ''-'', CHR 0xFF]] =
     Some (Inl Bad_Expected_Access)"
  by code_simp

subsection \<open>The command word\<close>

text \<open>
  C1. The token \<^verbatim>\<open>build\<close> is five bytes and its first codepoint one byte, and a
  command is registered under the long name \<^verbatim>\<open>build\<close>. The test of line 39,
  \<^verbatim>\<open>char_len <= size\<close>, sends the token to the search by short name, which finds no
  command: the global command governs and \<^verbatim>\<open>build\<close> is bound as a positional input.
\<close>

theorem command_word_searched_by_short_name:
  "utf8_char_length_spec ''build'' = Some 1 \<and>
   length ''build'' = 5 \<and>
   map_option longname (find (\<lambda>command. longname command = ''build'') (commands example_parser)) =
     Some ''build'' \<and>
   map_sum id (map_option longname) (find_command spec_env example_parser ''build'' 1) = Inr None \<and>
   parse spec_env example_parser [''prog'', ''build'', ''--name=x''] =
     Some (Inr \<lparr>program = ''prog'',
                result_command =
                  \<lparr>command_name = ''global'',
                   parameters = [Argument_param [] ''build'', Argument_param ''name'' ''x'']\<rparr>,
                result_parameters = []\<rparr>)"
  by code_simp

subsection \<open>Short options, combined form\<close>

lemma multi_flags_decodes:
  "decodes E nm i cps \<Longrightarrow>
   multi_flags E command nm i rc = Some (bind_codepoints E command nm cps rc)"
proof (induction cps arbitrary: i rc)
  case Nil
  then show ?case by (subst multi_flags.simps) simp
next
  case (Cons cp cps)
  from Cons.prems obtain len where
    i: "i < length nm" and
    len: "utf8_char_length E (substr_from nm i) = Some len" and
    cp: "codepoint E (substr nm i len) = Some cp" and
    rest: "decodes E nm (i + len) cps"
    by (auto split: option.splits)
  show ?case
    by (subst multi_flags.simps)
       (simp add: i len cp resolve_flag_def [symmetric] Cons.IH [OF rest]
             split: option.splits sum.splits)
qed

lemma bind_codepoints_all:
  "map (resolve_flag command) cps = map Some fs \<Longrightarrow>
   bind_codepoints E command nm cps rc = bound (bind_flags E nm fs rc)"
proof (induction cps arbitrary: fs rc)
  case Nil
  then show ?case by (simp add: bound_def)
next
  case (Cons cp cps)
  then obtain f fs' where fs: "fs = f # fs'" "resolve_flag command cp = Some f"
    "map (resolve_flag command) cps = map Some fs'"
    by (cases fs) auto
  show ?case
    by (simp add: fs Cons.IH [OF fs(3)] bound_def split: sum.splits)
qed

lemma bind_codepoints_unknown:
  "map (resolve_flag command) pre = map Some fs \<Longrightarrow> bind_flags E nm fs rc = Inr rc' \<Longrightarrow>
   resolve_flag command cp = None \<Longrightarrow>
   bind_codepoints E command nm (pre @ cp # post) rc =
     Inl (make_error nm None Type_Flag UnknownParameter 0)"
proof (induction pre arbitrary: fs rc)
  case Nil
  then show ?case by simp
next
  case (Cons c pre)
  then obtain f fs' where fs: "fs = f # fs'" "resolve_flag command c = Some f"
    "map (resolve_flag command) pre = map Some fs'"
    by (cases fs) auto
  from Cons.prems(2) fs(1) obtain rc1 where
    rc1: "add_flag E rc f nm = Inr rc1" "bind_flags E nm fs' rc1 = Inr rc'"
    by (auto split: sum.splits)
  show ?case
    using Cons.IH [OF fs(3) rc1(2) Cons.prems(3)] by (simp add: fs rc1)
qed

lemma decodes_combined:
  assumes "decodes E nm 0 cps" "1 < length cps"
  shows "\<exists>len. utf8_char_length E nm = Some len \<and> len < length nm"
proof -
  from assms(2) obtain c1 c2 cs where cps: "cps = c1 # c2 # cs"
    by (cases cps; cases "tl cps") auto
  from assms(1) show ?thesis
    by (auto simp: cps substr_from_def split: option.splits)
qed

lemma parse_short_argument_combined:
  assumes "args ! itarg = CHR ''-'' # nm" "decodes E nm 0 cps" "1 < length cps"
  shows "parse_short_argument E args itarg command rc =
           Some (itarg, bind_codepoints E command nm cps rc)"
proof -
  from decodes_combined [OF assms(2,3)] obtain len where
    len: "utf8_char_length E nm = Some len" "len < length nm" by blast
  show ?thesis
    by (simp add: parse_short_argument_def Let_def substr_from_def assms(1) len
          multi_flags_decodes [OF assms(2)])
qed

lemma decodes_abc: "decodes spec_env ''abc'' 0 [0x61, 0x62, 0x63]"
  by code_simp

lemma decodes_azc: "decodes spec_env ''azc'' 0 [0x61, 0x7A, 0x63]"
  by code_simp

text \<open>
  C3. A token that is one \<^verbatim>\<open>-\<close> and a name of more than one codepoint. When every
  codepoint is the short name of a flag, the flags are handed to the binder one
  after the other in the order of the token. When the codepoints before some
  codepoint are flags that the binder took and that codepoint is no flag short name,
  the token fails \<^verbatim>\<open>UnknownParameter\<close>, the error naming the whole name.
\<close>

theorem combined_flags:
  assumes "args ! itarg = CHR ''-'' # nm" "decodes E nm 0 cps" "1 < length cps"
  shows "(map (resolve_flag command) cps = map Some fs \<longrightarrow>
            parse_short_argument E args itarg command rc =
              Some (itarg, bound (bind_flags E nm fs rc))) \<and>
         (cps = pre @ cp # post \<and> map (resolve_flag command) pre = map Some fs' \<and>
          bind_flags E nm fs' rc = Inr rc' \<and> resolve_flag command cp = None \<longrightarrow>
            parse_short_argument E args itarg command rc =
              Some (itarg, Inl (make_error nm None Type_Flag UnknownParameter 0)))"
  using parse_short_argument_combined [OF assms, of command rc]
  by (auto simp: bind_codepoints_all bind_codepoints_unknown)

theorem combined_flags_witness:
  "parse_short_argument spec_env [''-abc''] 0 global
     \<lparr>command_name = ''global'', parameters = []\<rparr> =
     Some (0, Inr \<lparr>command_name = ''global'',
                   parameters = [Flag_param ''all'' 1, Flag_param ''bare'' 1,
                                 Flag_param ''color'' 1]\<rparr>) \<and>
   parse_short_argument spec_env [''-azc''] 0 global
     \<lparr>command_name = ''global'', parameters = []\<rparr> =
     Some (0, Inl (make_error ''azc'' None Type_Flag UnknownParameter 0))"
proof -
  let ?rc = "\<lparr>command_name = ''global'', parameters = []\<rparr>"
  have 1: "parse_short_argument spec_env [''-abc''] 0 global ?rc =
     Some (0, Inr \<lparr>command_name = ''global'',
                   parameters = [Flag_param ''all'' 1, Flag_param ''bare'' 1,
                                 Flag_param ''color'' 1]\<rparr>)"
    using combined_flags
            [where args = "[''-abc'']" and itarg = 0 and nm = "''abc''" and E = spec_env
               and cps = "[0x61, 0x62, 0x63]" and command = global
               and fs = "[flag_all, flag_bare, flag_color]" and rc = ?rc, OF _ decodes_abc]
    by (simp add: grammar_defs spec_env_defs resolve_flag_def)
  have 2: "parse_short_argument spec_env [''-azc''] 0 global ?rc =
     Some (0, Inl (make_error ''azc'' None Type_Flag UnknownParameter 0))"
    using combined_flags
            [where args = "[''-azc'']" and itarg = 0 and nm = "''azc''" and E = spec_env
               and cps = "[0x61, 0x7A, 0x63]" and command = global
               and pre = "[0x61]" and cp = "0x7A" and post = "[0x63]"
               and fs' = "[flag_all]" and rc = ?rc
               and rc' = "\<lparr>command_name = ''global'', parameters = [Flag_param ''all'' 1]\<rparr>",
             OF _ decodes_azc]
    by (simp add: grammar_defs spec_env_defs resolve_flag_def)
  from 1 2 show ?thesis by blast
qed

subsection \<open>Required arguments\<close>

text \<open>The set that lines 300 to 313 leave: the required long names that are not bound.\<close>

lemma set_fold_required:
  "set (fold (\<lambda>argument S. if required argument then List.insert (longname argument) S else S)
          as S0) =
   set S0 \<union> {longname a |a. a \<in> set as \<and> required a}"
  by (induction as arbitrary: S0) auto

lemma set_required_arguments:
  "set (required_arguments command) =
   {longname a |a. a \<in> set (arguments command) \<and> required a}"
  by (simp add: required_arguments_def set_fold_required)

lemma set_erase_found:
  "set (erase_found ps S) = set S - {n. \<exists>v. Argument_param n v \<in> set ps}"
  unfolding erase_found_def
proof (induction ps arbitrary: S)
  case Nil
  then show ?case by simp
next
  case (Cons p ps)
  show ?case
    by (cases p) (auto simp: Cons.IH)
qed

lemma remaining_empty_iff:
  "erase_found (parameters rc) (required_arguments command) = [] \<longleftrightarrow>
   (\<forall>a\<in>set (arguments command). required a \<longrightarrow> longname a \<in> bound_arguments rc)"
proof -
  have "erase_found (parameters rc) (required_arguments command) = [] \<longleftrightarrow>
        set (erase_found (parameters rc) (required_arguments command)) = {}"
    by simp
  also have "\<dots> \<longleftrightarrow>
        (\<forall>a\<in>set (arguments command). required a \<longrightarrow> longname a \<in> bound_arguments rc)"
    unfolding set_erase_found set_required_arguments bound_arguments_def by blast
  finally show ?thesis .
qed

text \<open>A binder that unbinds no name: the loop unbinds none either.\<close>

lemma bound_Inr: "bound r = Inr rc \<longleftrightarrow> r = Inr rc"
  by (cases r) (simp_all add: bound_def)




lemma binds_flag:
  "binds_by_longname E \<Longrightarrow> add_flag E rc f n = Inr rc' \<Longrightarrow>
   bound_arguments rc \<subseteq> bound_arguments rc'"
  unfolding binds_by_longname_def by (elim conjE allE [of _ rc] ) 
     (drule spec [of _ f], drule spec [of _ n], drule spec [of _ rc'], simp)


lemma binds_argument:
  "binds_by_longname E \<Longrightarrow> add_argument E rc a n v = Inr rc' \<Longrightarrow>
   longname a \<in> bound_arguments rc' \<and> bound_arguments rc \<subseteq> bound_arguments rc'"
  unfolding binds_by_longname_def
  by (elim conjE allE [of _ rc])
     (drule spec [of _ a], drule spec [of _ n], drule spec [of _ v], drule spec [of _ rc'], simp)

lemma binds_input:
  "binds_by_longname E \<Longrightarrow> add_input E rc c n = Inr rc' \<Longrightarrow>
   bound_arguments rc \<subseteq> bound_arguments rc'"
  unfolding binds_by_longname_def
  by (elim conjE allE [of _ rc])
     (drule spec [of _ c], drule spec [of _ n], drule spec [of _ rc'], simp)

lemma multi_flags_keeps:
  assumes "multi_flags E command nm i rc = Some r"
  shows "binds_by_longname E \<longrightarrow>
         (\<forall>rc'. r = Inr rc' \<longrightarrow> bound_arguments rc \<subseteq> bound_arguments rc')"
proof (rule multi_flags.raw_induct
         [where P = "\<lambda>E command nm i rc r. binds_by_longname E \<longrightarrow>
            (\<forall>rc'. r = Inr rc' \<longrightarrow> bound_arguments rc \<subseteq> bound_arguments rc')", OF _ assms],
       goal_cases)
  case (1 mf E command nm i rc r)
  show ?case
  proof (intro impI allI)
    fix rc' assume b: "binds_by_longname E" and r: "r = Inr rc'"
    from 1(2) r consider (stop) "rc' = rc"
      | (step) len f rc1 where "add_flag E rc f nm = Inr rc1"
          "mf E command nm (i + len) rc1 = Some (Inr rc')"
      by (auto simp: make_error_def split: if_splits option.splits sum.splits)
    then show "bound_arguments rc \<subseteq> bound_arguments rc'"
    proof cases
      case stop
      then show ?thesis by simp
    next
      case step
      from 1(1) [OF step(2)] b have "bound_arguments rc1 \<subseteq> bound_arguments rc'" by simp
      with binds_flag [OF b step(1)] show ?thesis by blast
    qed
  qed
qed


lemma multi_flags_keeps_Inr:
  "binds_by_longname E \<Longrightarrow> multi_flags E command nm i rc = Some (Inr rc') \<Longrightarrow>
   bound_arguments rc \<subseteq> bound_arguments rc'"
  using multi_flags_keeps by blast

lemma parse_long_argument_keeps:
  assumes "binds_by_longname E" "parse_long_argument E args itarg command rc = Inr rc'"
  shows "bound_arguments rc \<subseteq> bound_arguments rc'"
  using assms(2) binds_flag [OF assms(1)] binds_argument [OF assms(1)]
  unfolding parse_long_argument_def Let_def
  by (simp add: bound_Inr make_error_def split: option.splits if_splits; blast)

lemma parse_short_argument_keeps:
  assumes "binds_by_longname E" "parse_short_argument E args itarg command rc = Some (i, Inr rc')"
  shows "bound_arguments rc \<subseteq> bound_arguments rc'"
  using assms(2) binds_flag [OF assms(1)] binds_argument [OF assms(1)]
    multi_flags_keeps_Inr [OF assms(1)]
  unfolding parse_short_argument_def Let_def
  by (simp add: bound_Inr make_error_def split: option.splits if_splits; blast)

lemma dispatch_keeps:
  assumes "binds_by_longname E" "dispatch E args itarg command rc = Some (i, Inr rc')"
  shows "bound_arguments rc \<subseteq> bound_arguments rc'"
  using assms(2) parse_long_argument_keeps [OF assms(1)] parse_short_argument_keeps [OF assms(1)]
    binds_input [OF assms(1)]
  unfolding dispatch_def Let_def
  by (simp add: bound_Inr split: if_splits; blast)


lemma dispatch_loop_keeps:
  assumes "dispatch_loop E args command itarg rc = Some r"
  shows "binds_by_longname E \<longrightarrow>
         (\<forall>rc'. r = Inr rc' \<longrightarrow> bound_arguments rc \<subseteq> bound_arguments rc')"
proof (rule dispatch_loop.raw_induct
         [where P = "\<lambda>E args command itarg rc r. binds_by_longname E \<longrightarrow>
            (\<forall>rc'. r = Inr rc' \<longrightarrow> bound_arguments rc \<subseteq> bound_arguments rc')", OF _ assms],
       goal_cases)
  case (1 dl E args command itarg rc r)
  show ?case
  proof (intro impI allI)
    fix rc' assume b: "binds_by_longname E" and r: "r = Inr rc'"
    from 1(2) r consider (stop) "rc' = rc"
      | (step) i rc1 where "dispatch E args itarg command rc = Some (i, Inr rc1)"
          "dl E args command (i + 1) rc1 = Some (Inr rc')"
      by (auto simp: make_error_def split: if_splits option.splits sum.splits prod.splits)
    then show "bound_arguments rc \<subseteq> bound_arguments rc'"
    proof cases
      case stop
      then show ?thesis by simp
    next
      case step
      from 1(1) [OF step(2)] b have "bound_arguments rc1 \<subseteq> bound_arguments rc'" by simp
      with dispatch_keeps [OF b step(1)] show ?thesis by blast
    qed
  qed
qed

lemma dispatch_loop_keeps_Inr:
  "binds_by_longname E \<Longrightarrow> dispatch_loop E args command itarg rc = Some (Inr rc') \<Longrightarrow>
   bound_arguments rc \<subseteq> bound_arguments rc'"
  using dispatch_loop_keeps by blast

lemma dispatch_loop_long:
  assumes "itarg < length args" "args ! itarg = ''--'' @ n" "\<not> starts_with n ''-''"
  shows "dispatch_loop E args command itarg rc =
           (case parse_long_argument E args itarg command rc of
              Inl f \<Rightarrow> Some (Inl (add_position f itarg))
            | Inr rc' \<Rightarrow> dispatch_loop E args command (itarg + 1) rc')"
proof -
  have "starts_with (args ! itarg) ''--''" "\<not> starts_with (args ! itarg) ''---''"
    using assms(2,3) by (cases n, simp_all add: starts_with_def)+
  then show ?thesis
    using assms(1)
    by (subst dispatch_loop.simps) (simp add: dispatch_def Let_def split: sum.splits)
qed

lemma long_form_bound:
  assumes b: "binds_by_longname E"
      and tok: "itarg < length args" "args ! itarg = ''--'' @ n @ CHR ''='' # v"
        "CHR ''='' \<notin> set n" "\<not> starts_with n ''-''"
      and found: "find (\<lambda>param. longname param = n) (flags command) = None"
        "find (\<lambda>param. longname param = n) (arguments command) = Some a"
      and loop: "dispatch_loop E args command itarg rc_before = Some (Inr rc)"
  shows "longname a \<in> bound_arguments rc"
proof -
  have split: "long_name (args ! itarg) = n" "long_value (args ! itarg) = Some v"
    using long_split_argument [OF tok(3), of v] tok(2) by simp_all
  have long: "parse_long_argument E args itarg command rc_before =
                bound (add_argument E rc_before a n v)"
    by (simp add: parse_long_argument_def Let_def split found)
  have dashless: "\<not> starts_with (n @ CHR ''='' # v) ''-''"
    using tok(4) by (cases n) (simp_all add: starts_with_def)
  have step: "dispatch_loop E args command itarg rc_before =
                (case bound (add_argument E rc_before a n v) of
                   Inl f \<Rightarrow> Some (Inl (add_position f itarg))
                 | Inr rc' \<Rightarrow> dispatch_loop E args command (itarg + 1) rc')"
    using dispatch_loop_long [of itarg args "n @ CHR ''='' # v" E command rc_before]
      tok(1,2) dashless long
    by simp
  from loop obtain rc2 where
    rc2: "add_argument E rc_before a n v = Inr rc2"
      "dispatch_loop E args command (itarg + 1) rc2 = Some (Inr rc)"
    unfolding step
    by (cases "add_argument E rc_before a n v") (simp_all add: bound_def)
  from binds_argument [OF b rc2(1)] dispatch_loop_keeps_Inr [OF b rc2(2)]
  show ?thesis by blast
qed

lemma short_form_bound:
  assumes b: "binds_by_longname E"
      and tok: "itarg < length args" "args ! itarg = CHR ''-'' # nm" "\<not> starts_with nm ''-''"
      and dec: "utf8_char_length E nm = Some len" "length nm \<le> len" "codepoint E nm = Some cp"
      and found: "resolve_flag command cp = None" "resolve_argument command cp = Some a"
      and loop: "dispatch_loop E args command itarg rc_before = Some (Inr rc)"
  shows "longname a \<in> bound_arguments rc"
proof -
  have short: "parse_short_argument E args itarg command rc_before =
     (if itarg + 1 = length args then
        Some (itarg + 1, Inl (make_error nm None Type_Argument MissingValue 0))
      else Some (itarg + 1, bound (add_argument E rc_before a nm (args ! (itarg + 1)))))"
    using dec found
    by (simp add: parse_short_argument_def Let_def substr_from_def tok(2)
          resolve_flag_def resolve_argument_def)
  have step: "dispatch_loop E args command itarg rc_before =
     (if itarg + 1 = length args then
        Some (Inl (make_error nm None Type_Argument MissingValue (itarg + 1)))
      else
        (case bound (add_argument E rc_before a nm (args ! (itarg + 1))) of
           Inl f \<Rightarrow> Some (Inl (add_position f (itarg + 1)))
         | Inr rc' \<Rightarrow> dispatch_loop E args command (itarg + 1 + 1) rc'))"
    using dispatch_loop_short [OF tok, of E command rc_before] short
    by (simp add: make_error_def split: sum.splits)
  from loop obtain rc2 where
    rc2: "add_argument E rc_before a nm (args ! (itarg + 1)) = Inr rc2"
      "dispatch_loop E args command (itarg + 1 + 1) rc2 = Some (Inr rc)"
    unfolding step
    by (cases "add_argument E rc_before a nm (args ! (itarg + 1))")
       (simp_all add: bound_def split: if_splits)
  from binds_argument [OF b rc2(1)] dispatch_loop_keeps_Inr [OF b rc2(2)]
  show ?thesis by blast
qed

lemma count_flag_arguments:
  "Argument_param n v \<in> set (count_flag m ps) \<longleftrightarrow> Argument_param n v \<in> set ps"
  by (induction m ps rule: count_flag.induct) auto

lemma binds_by_longname_spec: "binds_by_longname spec_env"
  by (auto simp: binds_by_longname_def spec_env_def add_flag_spec_def add_argument_spec_def
        add_input_spec_def bound_arguments_def count_flag_arguments)

text \<open>
  C4. When the loop has completed with the result \<open>rc\<close>, \<^verbatim>\<open>parse_command\<close> fails
  \<^verbatim>\<open>RequiredArgument\<close> if some required argument of the command has its long name
  among no bound \<^verbatim>\<open>Argument\<close> parameter of \<open>rc\<close>, and returns \<open>rc\<close> if every required
  argument has. With a binder that binds an argument under its long name and unbinds
  nothing, a token \<^verbatim>\<open>--name=v\<close> that the loop parses, and a token \<^verbatim>\<open>-x\<close> of one
  codepoint followed by its value, bind the long name of the argument they resolve
  to in the result of the loop, so that its requirement is satisfied.
\<close>

theorem required_arguments_checked:
  "(dispatch_loop E args command 0 \<lparr>command_name = longname command, parameters = []\<rparr> =
      Some (Inr rc) \<and>
    (\<exists>a\<in>set (arguments command). required a \<and> longname a \<notin> bound_arguments rc) \<longrightarrow>
      parse_command E args command =
        Some (Inl (make_error
                     (uset_begin E (erase_found (parameters rc) (required_arguments command)))
                     None Type_Argument RequiredArgument 0))) \<and>
   (dispatch_loop E args command 0 \<lparr>command_name = longname command, parameters = []\<rparr> =
      Some (Inr rc) \<and>
    (\<forall>a\<in>set (arguments command). required a \<longrightarrow> longname a \<in> bound_arguments rc) \<longrightarrow>
      parse_command E args command = Some (Inr rc)) \<and>
   (binds_by_longname E \<and> itarg < length args \<and>
    args ! itarg = ''--'' @ n @ CHR ''='' # v \<and> CHR ''='' \<notin> set n \<and> \<not> starts_with n ''-'' \<and>
    find (\<lambda>param. longname param = n) (flags command) = None \<and>
    find (\<lambda>param. longname param = n) (arguments command) = Some a \<and>
    dispatch_loop E args command itarg rc_before = Some (Inr rc) \<longrightarrow>
      longname a \<in> bound_arguments rc) \<and>
   (binds_by_longname E \<and> itarg < length args \<and>
    args ! itarg = CHR ''-'' # nm \<and> \<not> starts_with nm ''-'' \<and>
    utf8_char_length E nm = Some len \<and> length nm \<le> len \<and> codepoint E nm = Some cp \<and>
    resolve_flag command cp = None \<and> resolve_argument command cp = Some a \<and>
    dispatch_loop E args command itarg rc_before = Some (Inr rc) \<longrightarrow>
      longname a \<in> bound_arguments rc)"
proof (intro conjI impI)
  assume "dispatch_loop E args command 0 \<lparr>command_name = longname command, parameters = []\<rparr> =
            Some (Inr rc) \<and>
          (\<exists>a\<in>set (arguments command). required a \<and> longname a \<notin> bound_arguments rc)"
  then show "parse_command E args command =
        Some (Inl (make_error
                     (uset_begin E (erase_found (parameters rc) (required_arguments command)))
                     None Type_Argument RequiredArgument 0))"
    using remaining_empty_iff [of rc command]
    by (auto simp: parse_command_def post_validation_def Let_def)
next
  assume "dispatch_loop E args command 0 \<lparr>command_name = longname command, parameters = []\<rparr> =
            Some (Inr rc) \<and>
          (\<forall>a\<in>set (arguments command). required a \<longrightarrow> longname a \<in> bound_arguments rc)"
  then show "parse_command E args command = Some (Inr rc)"
    using remaining_empty_iff [of rc command]
    by (simp add: parse_command_def post_validation_def Let_def)
next
  assume "binds_by_longname E \<and> itarg < length args \<and>
    args ! itarg = ''--'' @ n @ CHR ''='' # v \<and> CHR ''='' \<notin> set n \<and> \<not> starts_with n ''-'' \<and>
    find (\<lambda>param. longname param = n) (flags command) = None \<and>
    find (\<lambda>param. longname param = n) (arguments command) = Some a \<and>
    dispatch_loop E args command itarg rc_before = Some (Inr rc)"
  then show "longname a \<in> bound_arguments rc"
    using long_form_bound [of E itarg args n v command a rc_before rc] by blast
next
  assume "binds_by_longname E \<and> itarg < length args \<and>
    args ! itarg = CHR ''-'' # nm \<and> \<not> starts_with nm ''-'' \<and>
    utf8_char_length E nm = Some len \<and> length nm \<le> len \<and> codepoint E nm = Some cp \<and>
    resolve_flag command cp = None \<and> resolve_argument command cp = Some a \<and>
    dispatch_loop E args command itarg rc_before = Some (Inr rc)"
  then show "longname a \<in> bound_arguments rc"
    using short_form_bound [of E itarg args nm len cp command a rc_before rc] by blast
qed

theorem required_arguments_checked_witness:
  "parse_command spec_env [''-a''] global =
     Some (Inl (make_error ''name'' None Type_Argument RequiredArgument 0)) \<and>
   parse_command spec_env [''--name=v'', ''-a''] global =
     Some (Inr \<lparr>command_name = ''global'',
                parameters = [Argument_param ''name'' ''v'', Flag_param ''all'' 1]\<rparr>) \<and>
   parse_command spec_env [''-n'', ''v''] global =
     Some (Inr \<lparr>command_name = ''global'', parameters = [Argument_param ''name'' ''v'']\<rparr>)"
proof -
  let ?rc0 = "\<lparr>command_name = longname global, parameters = []\<rparr>"
  let ?R1 = "\<lparr>command_name = ''global'', parameters = [Flag_param ''all'' 1]\<rparr>"
  let ?R2 = "\<lparr>command_name = ''global'',
              parameters = [Argument_param ''name'' ''v'', Flag_param ''all'' 1]\<rparr>"
  let ?R3 = "\<lparr>command_name = ''global'', parameters = [Argument_param ''name'' ''v'']\<rparr>"
  have loop1: "dispatch_loop spec_env [''-a''] global 0 ?rc0 = Some (Inr ?R1)"
    by code_simp
  have loop2: "dispatch_loop spec_env [''--name=v'', ''-a''] global 0 ?rc0 = Some (Inr ?R2)"
    by code_simp
  have loop3: "dispatch_loop spec_env [''-n'', ''v''] global 0 ?rc0 = Some (Inr ?R3)"
    by code_simp
  have args: "set (arguments global) = {argument_name, argument_output}"
    "required argument_name" "\<not> required argument_output"
    "longname argument_name = ''name''"
    by (simp_all add: grammar_defs)
  have missing: "\<exists>a\<in>set (arguments global). required a \<and> longname a \<notin> bound_arguments ?R1"
    by (simp add: args bound_arguments_def)
  have 1: "parse_command spec_env [''-a''] global =
     Some (Inl (make_error ''name'' None Type_Argument RequiredArgument 0))"
    using required_arguments_checked
            [where E = spec_env and args = "[''-a'']" and command = global and rc = ?R1,
             THEN conjunct1] loop1 missing
    by (simp add: grammar_defs spec_env_def required_arguments_def erase_found_def)
  have long: "longname argument_name \<in> bound_arguments ?R2"
    using required_arguments_checked
            [where E = spec_env and args = "[''--name=v'', ''-a'']" and command = global
               and itarg = 0 and n = "''name''" and v = "''v''" and a = argument_name
               and rc_before = ?rc0 and rc = ?R2,
             THEN conjunct2, THEN conjunct2, THEN conjunct1] loop2 binds_by_longname_spec
    by (simp add: grammar_defs starts_with_def)
  have 2: "parse_command spec_env [''--name=v'', ''-a''] global = Some (Inr ?R2)"
    using required_arguments_checked
            [where E = spec_env and args = "[''--name=v'', ''-a'']" and command = global
               and rc = ?R2,
             THEN conjunct2, THEN conjunct1] loop2 long
    by (simp add: args)
  have short: "longname argument_name \<in> bound_arguments ?R3"
    using required_arguments_checked
            [where E = spec_env and args = "[''-n'', ''v'']" and command = global
               and itarg = 0 and nm = "''n''" and len = 1 and cp = "0x6E"
               and a = argument_name and rc_before = ?rc0 and rc = ?R3,
             THEN conjunct2, THEN conjunct2, THEN conjunct2] loop3 binds_by_longname_spec
      utf8_n
    by (simp add: grammar_defs starts_with_def spec_env_def resolve_flag_def
          resolve_argument_def)
  have 3: "parse_command spec_env [''-n'', ''v''] global = Some (Inr ?R3)"
    using required_arguments_checked
            [where E = spec_env and args = "[''-n'', ''v'']" and command = global and rc = ?R3,
             THEN conjunct2, THEN conjunct1] loop3 short
    by (simp add: args)
  from 1 2 3 show ?thesis by blast
qed

subsection \<open>Positions of errors\<close>

text \<open>Every failure of a parsing routine is one that parser.inl makes or one of the binder.\<close>

lemma returned_flag: "add_flag E rc f n = Inl e \<Longrightarrow> returned_by_binder E e"
  unfolding returned_by_binder_def binder_errors_def by blast

lemma returned_argument: "add_argument E rc a n v = Inl e \<Longrightarrow> returned_by_binder E e"
  unfolding returned_by_binder_def binder_errors_def by blast

lemma returned_input: "add_input E rc c n = Inl e \<Longrightarrow> returned_by_binder E e"
  unfolding returned_by_binder_def binder_errors_def by blast

lemma binder_errors_returned:
  "binder_errors E Q \<Longrightarrow> returned_by_binder E e \<Longrightarrow> Q e"
  unfolding returned_by_binder_def binder_errors_def by blast

lemma slice_error_made: "t \<noteq> Type_Command \<Longrightarrow> p \<le> n \<Longrightarrow> slice_error E n (make_error a v t c p)"
  unfolding slice_error_def by blast

lemma slice_error_returned:
  assumes "returned_by_binder E e"
  shows "slice_error E n (Unexpected e)"
proof -
  have "Unexpected e = Unexpected (e\<lparr>position := position e + 0\<rparr>)" by simp
  with assms show ?thesis unfolding slice_error_def by blast
qed

lemma slice_error_bound:
  "bound r = Inl f \<Longrightarrow> (\<And>e. r = Inl e \<Longrightarrow> returned_by_binder E e) \<Longrightarrow> slice_error E n f"
  by (cases r) (auto simp: bound_def slice_error_returned)

lemma make_error_add_position:
  "add_position (make_error a v t c p) k = make_error a v t c (p + k)"
  by (simp add: make_error_def)

lemma slice_error_shift:
  assumes "slice_error E m f"
  shows "slice_error E (m + k) (add_position f k)"
proof -
  from assms consider (access) "f = Bad_Expected_Access"
    | (made) a v t c p where "t \<noteq> Type_Command" "p \<le> m" "f = make_error a v t c p"
    | (refused) e p where "p \<le> m" "returned_by_binder E e"
        "f = Unexpected (e\<lparr>position := position e + p\<rparr>)"
    unfolding slice_error_def by blast
  then show ?thesis
  proof cases
    case access
    then show ?thesis by (simp add: slice_error_def)
  next
    case made
    then show ?thesis by (simp add: make_error_add_position slice_error_made)
  next
    case refused
    have "add_position f k = Unexpected (e\<lparr>position := position e + (p + k)\<rparr>)"
      by (simp add: refused(3))
    moreover have "p + k \<le> m + k" using refused(1) by simp
    ultimately show ?thesis using refused(2) unfolding slice_error_def by blast
  qed
qed

lemma slice_error_mono:
  assumes "slice_error E m f" "m \<le> n"
  shows "slice_error E n f"
proof -
  from assms(1) consider (access) "f = Bad_Expected_Access"
    | (made) a v t c p where "t \<noteq> Type_Command" "p \<le> m" "f = make_error a v t c p"
    | (refused) e p where "p \<le> m" "returned_by_binder E e"
        "f = Unexpected (e\<lparr>position := position e + p\<rparr>)"
    unfolding slice_error_def by blast
  then show ?thesis
  proof cases
    case access
    then show ?thesis by (simp add: slice_error_def)
  next
    case made
    with assms(2) show ?thesis by (simp add: slice_error_made)
  next
    case refused
    moreover have "p \<le> n" using refused(1) assms(2) by simp
    ultimately show ?thesis unfolding slice_error_def by blast
  qed
qed

lemma multi_flags_slice_error:
  assumes "multi_flags E command nm i rc = Some r"
  shows "\<forall>f. r = Inl f \<longrightarrow> slice_error E 0 f"
proof (rule multi_flags.raw_induct
         [where P = "\<lambda>E command nm i rc r. \<forall>f. r = Inl f \<longrightarrow> slice_error E 0 f", OF _ assms],
       goal_cases)
  case (1 mf E command nm i rc r)
  show ?case
  proof (intro allI impI)
    fix f assume r: "r = Inl f"
    from 1(2) r consider
        (made) c where "f = make_error nm None Type_Flag c 0"
      | (refused) fl e where "add_flag E rc fl nm = Inl e" "f = Unexpected e"
      | (step) len rc' where "mf E command nm (i + len) rc' = Some (Inl f)"
      by (auto split: if_splits option.splits sum.splits)
    then show "slice_error E 0 f"
    proof cases
      case made
      then show ?thesis by (simp add: slice_error_made)
    next
      case refused
      then show ?thesis by (simp add: slice_error_returned returned_flag)
    next
      case step
      from 1(1) [OF step] show ?thesis by simp
    qed
  qed
qed

lemma parse_long_argument_slice_error:
  assumes "parse_long_argument E args itarg command rc = Inl f"
  shows "slice_error E 0 f"
  using assms unfolding parse_long_argument_def Let_def
  by (auto simp: slice_error_made returned_flag returned_argument
           elim!: slice_error_bound split: option.splits if_splits)

lemma parse_short_argument_slice_error:
  assumes "parse_short_argument E args itarg command rc = Some (i, Inl f)"
  shows "slice_error E 0 f"
  using assms multi_flags_slice_error [of E command _ 0 rc "Inl f"]
  unfolding parse_short_argument_def Let_def
  by (auto simp: slice_error_made slice_error_def [of E 0 Bad_Expected_Access]
                 returned_flag returned_argument
           elim!: slice_error_bound split: option.splits if_splits)

lemma parse_short_argument_iterator:
  assumes "parse_short_argument E args itarg command rc = Some (i, r)" "itarg < length args"
  shows "(i = itarg \<or> i = itarg + 1) \<and> i \<le> length args \<and> (\<forall>rc'. r = Inr rc' \<longrightarrow> i < length args)"
  using assms unfolding parse_short_argument_def Let_def
  by (auto simp: make_error_def split: option.splits if_splits)

lemma dispatch_slice_error:
  assumes "dispatch E args itarg command rc = Some (i, Inl f)"
  shows "slice_error E 0 f"
  using assms parse_long_argument_slice_error parse_short_argument_slice_error
  unfolding dispatch_def Let_def
  by (auto simp: returned_input elim!: slice_error_bound split: if_splits)

lemma dispatch_iterator:
  assumes "dispatch E args itarg command rc = Some (i, r)" "itarg < length args"
  shows "(i = itarg \<or> i = itarg + 1) \<and> i \<le> length args \<and> (\<forall>rc'. r = Inr rc' \<longrightarrow> i < length args)"
  using assms parse_short_argument_iterator [of E args itarg command rc i r]
  unfolding dispatch_def Let_def
  by (auto split: if_splits)


lemma dispatch_loop_slice_error:
  assumes "dispatch_loop E args command itarg rc = Some r"
  shows "itarg \<le> length args \<longrightarrow> (\<forall>f. r = Inl f \<longrightarrow> slice_error E (length args) f)"
proof (rule dispatch_loop.raw_induct
         [where P = "\<lambda>E args command itarg rc r.
            itarg \<le> length args \<longrightarrow> (\<forall>f. r = Inl f \<longrightarrow> slice_error E (length args) f)",
          OF _ assms], goal_cases)
  case (1 dl E args command itarg rc r)
  show ?case
  proof (intro allI impI)
    fix f assume le: "itarg \<le> length args" and r: "r = Inl f"
    from 1(2) r have ne: "itarg \<noteq> length args" by (auto split: if_splits)
    with le have lt: "itarg < length args" by simp
    from 1(2) r ne consider
        (dashes) "f = make_error (args ! itarg) None Type_None SyntaxError itarg"
      | (token) i f' where "dispatch E args itarg command rc = Some (i, Inl f')"
          "f = add_position f' i"
      | (step) i rc' where "dispatch E args itarg command rc = Some (i, Inr rc')"
          "dl E args command (i + 1) rc' = Some (Inl f)"
      by (auto split: if_splits option.splits sum.splits prod.splits)
    then show "slice_error E (length args) f"
    proof cases
      case dashes
      then show ?thesis using lt by (simp add: slice_error_made)
    next
      case token
      from dispatch_iterator [OF token(1) lt] have "i \<le> length args" by simp
      with slice_error_shift [OF dispatch_slice_error [OF token(1)], of i] token(2)
      show ?thesis by (simp add: slice_error_mono)
    next
      case step
      from dispatch_iterator [OF step(1) lt] have "i + 1 \<le> length args" by simp
      with 1(1) [OF step(2)] show ?thesis by simp
    qed
  qed
qed

lemma parse_command_slice_error:
  assumes "parse_command E args command = Some (Inl f)"
  shows "slice_error E (length args) f"
  using assms dispatch_loop_slice_error [of E args command 0]
  unfolding parse_command_def post_validation_def Let_def
  by (auto simp: slice_error_made split: option.splits sum.splits if_splits)


lemma slice_error_type:
  assumes "binder_errors E (\<lambda>e. err_type (error e) \<noteq> Type_Command)"
    "slice_error E n (Unexpected e)"
  shows "err_type (error e) \<noteq> Type_Command"
proof -
  from assms(2) consider
      (made) a v t c p where "t \<noteq> Type_Command" "Unexpected e = make_error a v t c p"
    | (refused) e' p where "returned_by_binder E e'"
        "e = e'\<lparr>position := position e' + p\<rparr>"
    unfolding slice_error_def by auto
  then show ?thesis
  proof cases
    case made
    then show ?thesis by (auto simp: make_error_def)
  next
    case refused
    from binder_errors_returned [OF assms(1) refused(1)] refused(2)
    show ?thesis by simp
  qed
qed




lemma add_position_Unexpected:
  "add_position f k = Unexpected e \<Longrightarrow>
   \<exists>e'. f = Unexpected e' \<and> e = e'\<lparr>position := position e' + k\<rparr>"
  by (cases f) auto


lemma binder_errors_spec: "binder_errors spec_env Q"
  by (simp add: binder_errors_def spec_env_def add_flag_spec_def add_argument_spec_def
        add_input_spec_def)





















subsection \<open>A leading word that is no command\<close>

lemma parse_error_type:
  assumes "binder_errors E (\<lambda>e. err_type (error e) \<noteq> Type_Command)"
      and "parse E P args = Some (Inl (Unexpected e))"
      and "resolve_command E P args = Inr (Some g, base)"
  shows "err_type (error e) \<noteq> Type_Command"
proof -
  from assms(2) have ne: "args \<noteq> []" by (auto simp: parse_def)
  from assms(2,3) ne obtain f where
    f: "parse_command E (drop base args) g = Some (Inl f)" "add_position f base = Unexpected e"
    by (auto simp: parse_def split: sum.splits option.splits)
  from add_position_Unexpected [OF f(2)] obtain e' where
    e': "f = Unexpected e'" "e = e'\<lparr>position := position e' + base\<rparr>" by blast
  from parse_command_slice_error [OF f(1)] e'(1)
  have "err_type (error e') \<noteq> Type_Command"
    using slice_error_type [OF assms(1)] by blast
  with e'(2) show ?thesis by simp
qed

lemma utf8_foo: "utf8_char_length_spec ''foo'' = Some 1" "codepoint_spec ''foo'' = Some 0x66"
  by code_simp+

lemma find_command_unmatched:
  assumes "codepoint E tok = Some cp"
      and "find (\<lambda>command. longname command = tok) (commands P) = None"
      and "find (\<lambda>command. shortname command = Some cp) (commands P) = None"
  shows "find_command E P tok char_len = Inr None"
  using assms by (simp add: find_command_def)

text \<open>
  C6, as the code has it. When the first token after the program name does not start
  with \<^verbatim>\<open>-\<close>, decodes, is the long name of no registered command and has a first
  codepoint that is the short name of no registered command, and a global command is
  registered: the global command governs and the token is not consumed; \<^verbatim>\<open>parse\<close>
  returns what \<^verbatim>\<open>parse_command\<close> returns for the slice that starts with the token; the
  loop hands the token to \<^verbatim>\<open>add_input\<close> and goes on after it; and, unless the binder
  returns one, no error of \<^verbatim>\<open>parse\<close> is of the type \<^verbatim>\<open>Command\<close>.
\<close>

theorem unknown_word_falls_back:
  assumes "args = prog # tok # rest" "\<not> starts_with tok ''-''"
      and "utf8_char_length E tok = Some char_len" "codepoint E tok = Some cp"
      and "find (\<lambda>command. longname command = tok) (commands P) = None"
      and "find (\<lambda>command. shortname command = Some cp) (commands P) = None"
      and "get_global_command P = Some g"
  shows "resolve_command E P args = Inr (Some g, 1) \<and>
         parse E P args =
           (case parse_command E (tok # rest) g of
              None \<Rightarrow> None
            | Some (Inl f) \<Rightarrow> Some (Inl (add_position f 1))
            | Some (Inr parsed_cmd) \<Rightarrow>
                Some (Inr \<lparr>program = prog, result_command = parsed_cmd,
                           result_parameters = []\<rparr>)) \<and>
         dispatch_loop E (tok # rest) g 0 rc =
           (case add_input E rc g tok of
              Inl e \<Rightarrow> Some (Inl (Unexpected e))
            | Inr rc' \<Rightarrow> dispatch_loop E (tok # rest) g 1 rc') \<and>
         (binder_errors E (\<lambda>e. err_type (error e) \<noteq> Type_Command) \<and>
          parse E P args = Some (Inl (Unexpected e)) \<longrightarrow>
            err_type (error e) \<noteq> Type_Command)"
proof -
  have unmatched: "find_command E P tok char_len = Inr None"
    using assms(4-6) by (rule find_command_unmatched)
  have resolve: "resolve_command E P args = Inr (Some g, 1)"
    using assms(1-3,7) unmatched by (simp add: resolve_command_def)
  have dashes: "\<not> starts_with tok ''--''" "\<not> starts_with tok ''---''"
    using assms(2) by (cases tok; simp add: starts_with_def)+
  have whole: "parse E P args =
           (case parse_command E (tok # rest) g of
              None \<Rightarrow> None
            | Some (Inl f) \<Rightarrow> Some (Inl (add_position f 1))
            | Some (Inr parsed_cmd) \<Rightarrow>
                Some (Inr \<lparr>program = prog, result_command = parsed_cmd,
                           result_parameters = []\<rparr>))"
    using resolve unfolding assms(1)
    by (simp add: parse_def split: option.splits sum.splits)
  have input: "dispatch_loop E (tok # rest) g 0 rc =
           (case add_input E rc g tok of
              Inl e \<Rightarrow> Some (Inl (Unexpected e))
            | Inr rc' \<Rightarrow> dispatch_loop E (tok # rest) g 1 rc')"
    using assms(2) dashes
    by (subst dispatch_loop.simps) (simp add: dispatch_def bound_def split: sum.splits)
  have type: "binder_errors E (\<lambda>e. err_type (error e) \<noteq> Type_Command) \<and>
          parse E P args = Some (Inl (Unexpected e)) \<longrightarrow>
            err_type (error e) \<noteq> Type_Command"
    using parse_error_type [OF _ _ resolve] by blast
  from resolve whole input type show ?thesis by blast
qed

theorem unknown_word_falls_back_witness:
  "map_sum id (map_prod (map_option longname) id)
     (resolve_command spec_env example_parser [''prog'', ''foo'', ''--name=x'']) =
     Inr (Some ''global'', 1) \<and>
   parse spec_env example_parser [''prog'', ''foo'', ''--name=x''] =
     Some (Inr \<lparr>program = ''prog'',
                result_command =
                  \<lparr>command_name = ''global'',
                   parameters = [Argument_param [] ''foo'', Argument_param ''name'' ''x'']\<rparr>,
                result_parameters = []\<rparr>) \<and>
   dispatch_loop spec_env [''foo'', ''--name=x''] global 0
       \<lparr>command_name = ''global'', parameters = []\<rparr> =
     dispatch_loop spec_env [''foo'', ''--name=x''] global 1
       \<lparr>command_name = ''global'', parameters = [Argument_param [] ''foo'']\<rparr> \<and>
   err_type (error \<lparr>error = \<lparr>err_argument = ''name'', err_value = None,
                               err_type = Type_Argument, err_code = RequiredArgument\<rparr>,
                     position = 1\<rparr>) \<noteq> Type_Command"
proof -
  let ?args = "[''prog'', ''foo'', ''--name=x'']"
  let ?rc = "\<lparr>command_name = ''global'', parameters = []\<rparr>"
  let ?m = "\<lparr>error = \<lparr>err_argument = ''name'', err_value = None,
                        err_type = Type_Argument, err_code = RequiredArgument\<rparr>,
             position = 1\<rparr>"
  have no_long: "find (\<lambda>command. longname command = ''foo'') (commands example_parser) = None"
    by (simp add: example_parser_def grammar_defs)
  have no_short: "find (\<lambda>command. shortname command = Some 0x66) (commands example_parser) = None"
    by (simp add: example_parser_def grammar_defs)
  have glob: "get_global_command example_parser = Some global"
    by (simp add: get_global_command_def example_parser_def)
  have len: "utf8_char_length spec_env ''foo'' = Some 1"
    by (simp add: spec_env_def utf8_foo)
  have cp: "codepoint spec_env ''foo'' = Some 0x66"
    by (simp add: spec_env_def utf8_foo)
  note T = unknown_word_falls_back
             [where E = spec_env and P = example_parser and g = global and prog = "''prog''"
                and tok = "''foo''" and char_len = 1 and cp = "0x66",
              OF _ _ len cp no_long no_short glob]
  have inner: "parse_command spec_env [''foo'', ''--name=x''] global =
     Some (Inr \<lparr>command_name = ''global'',
                parameters = [Argument_param [] ''foo'', Argument_param ''name'' ''x'']\<rparr>)"
    by code_simp
  have 1: "map_sum id (map_prod (map_option longname) id)
             (resolve_command spec_env example_parser ?args) = Inr (Some ''global'', 1)"
    using T [where args = ?args and rest = "[''--name=x'']", THEN conjunct1]
    by (simp add: starts_with_def grammar_defs)
  have 2: "parse spec_env example_parser ?args =
     Some (Inr \<lparr>program = ''prog'',
                result_command =
                  \<lparr>command_name = ''global'',
                   parameters = [Argument_param [] ''foo'', Argument_param ''name'' ''x'']\<rparr>,
                result_parameters = []\<rparr>)"
    using T [where args = ?args and rest = "[''--name=x'']", THEN conjunct2, THEN conjunct1]
      inner
    by (simp add: starts_with_def)
  have 3: "dispatch_loop spec_env [''foo'', ''--name=x''] global 0 ?rc =
     dispatch_loop spec_env [''foo'', ''--name=x''] global 1
       \<lparr>command_name = ''global'', parameters = [Argument_param [] ''foo'']\<rparr>"
    using T [where args = ?args and rest = "[''--name=x'']" and rc = ?rc,
             THEN conjunct2, THEN conjunct2, THEN conjunct1]
    by (simp add: starts_with_def spec_env_def add_input_spec_def)
  have fails: "parse spec_env example_parser [''prog'', ''foo''] = Some (Inl (Unexpected ?m))"
    by code_simp
  have 4: "err_type (error ?m) \<noteq> Type_Command"
    using T [where args = "[''prog'', ''foo'']" and rest = "[]" and e = ?m,
             THEN conjunct2, THEN conjunct2, THEN conjunct2] fails binder_errors_spec
    by (simp add: starts_with_def)
  from 1 2 3 4 show ?thesis by blast
qed

text \<open>
  With no global command registered, the word that is no command's long name and whose
  first codepoint is no command's short name ends the parse with \<^verbatim>\<open>NoGlobalCommand\<close>, an
  error of the type \<^verbatim>\<open>Command\<close>, at the index of the word (lines 57 to 66); it is not
  handed to the parsing of the command.
\<close>

theorem unknown_word_counterexample:
  "codepoint_spec ''foo'' = Some 0x66 \<and>
   find (\<lambda>command. longname command = ''foo'') (commands no_global_parser) = None \<and>
   find (\<lambda>command. shortname command = Some 0x66) (commands no_global_parser) = None \<and>
   get_global_command no_global_parser = None \<and>
   parse spec_env no_global_parser [''prog'', ''foo''] =
     Some (Inl (make_error [] None Type_Command NoGlobalCommand 1))"
  by (simp add: parse_def resolve_command_def find_command_def starts_with_def
        get_global_command_def no_global_parser_def spec_env_def utf8_foo grammar_defs)

subsection \<open>The parser returns\<close>

text \<open>
  The loops are partial functions because the length of a codepoint is a parameter.
  With a codepoint utility that never returns the length 0, both loops end and
  \<^verbatim>\<open>parse\<close> returns for every grammar and every argument vector; the instance above is
  such a utility.
\<close>

lemma multi_flags_returns:
  assumes pos: "\<forall>s n. utf8_char_length E s = Some n \<longrightarrow> 0 < n"
  shows "\<exists>r. multi_flags E command nm i rc = Some r"
proof (induction "length nm - i" arbitrary: i rc rule: less_induct)
  case less
  show ?case
  proof (cases "i < length nm")
    case False
    then show ?thesis by (subst multi_flags.simps) simp
  next
    case True
    have step: "\<exists>r. multi_flags E command nm (i + len) rc' = Some r"
      if "utf8_char_length E (substr_from nm i) = Some len" for len rc'
    proof -
      from pos that have "0 < len" by blast
      with True have "length nm - (i + len) < length nm - i" by simp
      then show ?thesis by (rule less)
    qed
    show ?thesis
      by (subst multi_flags.simps)
         (auto simp: True step split: option.splits sum.splits)
  qed
qed

lemma parse_short_argument_returns:
  assumes pos: "\<forall>s n. utf8_char_length E s = Some n \<longrightarrow> 0 < n"
  shows "\<exists>r. parse_short_argument E args itarg command rc = Some r"
  using multi_flags_returns [OF pos, where command = command and i = 0 and rc = rc]
  unfolding parse_short_argument_def Let_def
  by (auto split: option.splits)

lemma dispatch_returns:
  assumes pos: "\<forall>s n. utf8_char_length E s = Some n \<longrightarrow> 0 < n"
  shows "\<exists>r. dispatch E args itarg command rc = Some r"
  using parse_short_argument_returns [OF pos, where args = args and itarg = itarg and command = command and rc = rc]
  unfolding dispatch_def Let_def by auto

lemma dispatch_loop_returns:
  assumes pos: "\<forall>s n. utf8_char_length E s = Some n \<longrightarrow> 0 < n"
      and le: "itarg \<le> length args"
  shows "\<exists>r. dispatch_loop E args command itarg rc = Some r"
  using le
proof (induction "length args - itarg" arbitrary: itarg rc rule: less_induct)
  case less
  show ?case
  proof (cases "itarg = length args")
    case True
    then show ?thesis by (subst dispatch_loop.simps) simp
  next
    case False
    with less.prems have lt: "itarg < length args" by simp
    from dispatch_returns [OF pos, where args = args and itarg = itarg and command = command and rc = rc] obtain i r where
      d: "dispatch E args itarg command rc = Some (i, r)" by (cases) auto
    note it = dispatch_iterator [OF d lt]
    show ?thesis
    proof (cases r)
      case (Inl f)
      then show ?thesis using d False by (subst dispatch_loop.simps) simp
    next
      case (Inr rc')
      with it have i: "i < length args" "itarg \<le> i" by auto
      then have "length args - (i + 1) < length args - itarg" "i + 1 \<le> length args" by simp_all
      from less.hyps [OF this] obtain r' where
        "dispatch_loop E args command (i + 1) rc' = Some r'" by blast
      then show ?thesis using d False Inr by (subst dispatch_loop.simps) simp
    qed
  qed
qed

lemma parse_command_returns:
  assumes pos: "\<forall>s n. utf8_char_length E s = Some n \<longrightarrow> 0 < n"
  shows "\<exists>r. parse_command E args command = Some r"
proof -
  from dispatch_loop_returns [OF pos, where itarg = 0 and args = args and command = command]
  obtain r where
    "dispatch_loop E args command 0 \<lparr>command_name = longname command, parameters = []\<rparr> =
       Some r"
    by blast
  then show ?thesis by (cases r) (simp_all add: parse_command_def)
qed

lemma parse_returns:
  assumes pos: "\<forall>s n. utf8_char_length E s = Some n \<longrightarrow> 0 < n"
  shows "\<exists>r. parse E P args = Some r"
proof (cases "resolve_command E P args")
  case (Inl f)
  then show ?thesis by (simp add: parse_def)
next
  case (Inr cb)
  obtain c base where cb: "cb = (c, base)" by (cases cb)
  show ?thesis
  proof (cases c)
    case None
    then show ?thesis using Inr cb by (simp add: parse_def)
  next
    case (Some command)
    from parse_command_returns [OF pos, where args = "drop base args" and command = command]
    obtain r where "parse_command E (drop base args) command = Some r" by blast
    then show ?thesis using Inr cb Some by (cases r) (simp_all add: parse_def)
  qed
qed

lemma utf8_char_length_spec_positive: "utf8_char_length_spec s = Some n \<Longrightarrow> 0 < n"
  by (auto simp: utf8_char_length_spec_def Let_def split: list.splits if_splits)

lemma parse_spec_env_returns: "\<exists>r. parse (spec_env\<lparr>uset_begin := b\<rparr>) P args = Some r"
  by (rule parse_returns) (auto simp: spec_env_def utf8_char_length_spec_positive)

end
